theory Spec2Isabelle
  imports Complex_Main "HOL-Library.Word" "HOL-Library.Log_Nat"
begin

unbundle bit_operations_syntax

section \<open>IEEE-754 binary64 values as bit patterns\<close>

text \<open>
  \<^verbatim>\<open>vector4d.h\<close> is modelled in the configuration where \<^verbatim>\<open>RTM_SSE2_INTRINSICS\<close> is
  defined and \<^verbatim>\<open>RTM_SSE4_INTRINSICS\<close>, \<^verbatim>\<open>RTM_AVX_INTRINSICS\<close> are not: this is the
  configuration whose code is written out in the header itself (the scalar fallback
  delegates to \<^verbatim>\<open>scalar_ceil\<close>, \<^verbatim>\<open>scalar_floor\<close>, ... of another header).

  The SSE2 code manipulates doubles through their bits (\<^verbatim>\<open>_mm_and_pd\<close>, \<^verbatim>\<open>_mm_or_pd\<close>,
  reinterpreting casts), so a \<^verbatim>\<open>double\<close> is its 64-bit pattern: bit 63 the sign, bits
  62..52 the biased exponent, bits 51..0 the fraction. Arithmetic follows the SSE2
  instructions under the default MXCSR: round to nearest, ties to even, all exceptions
  masked, no flush-to-zero.
\<close>

type_synonym f64 = "64 word"

definition f64_sign :: "f64 \<Rightarrow> bool" where
  "f64_sign x = (2 ^ 63 \<le> unat x)"

definition f64_mag :: "f64 \<Rightarrow> nat" where
  \<comment> \<open>the 63 bits below the sign\<close>
  "f64_mag x = unat x mod 2 ^ 63"

definition f64_expo :: "f64 \<Rightarrow> nat" where
  "f64_expo x = f64_mag x div 2 ^ 52"

definition f64_frac :: "f64 \<Rightarrow> nat" where
  "f64_frac x = unat x mod 2 ^ 52"

definition f64_pack :: "bool \<Rightarrow> nat \<Rightarrow> f64" where
  \<comment> \<open>sign and 63-bit magnitude to a bit pattern\<close>
  "f64_pack s m = word_of_nat ((if s then 2 ^ 63 else 0) + m)"

definition is_nan :: "f64 \<Rightarrow> bool" where
  "is_nan x = (f64_expo x = 2047 \<and> f64_frac x \<noteq> 0)"

definition is_inf :: "f64 \<Rightarrow> bool" where
  "is_inf x = (f64_expo x = 2047 \<and> f64_frac x = 0)"

definition is_finite :: "f64 \<Rightarrow> bool" where
  "is_finite x = (f64_expo x < 2047)"

definition is_zero :: "f64 \<Rightarrow> bool" where
  "is_zero x = (f64_mag x = 0)"

definition f64_mant :: "f64 \<Rightarrow> nat" where
  \<comment> \<open>integer significand of a finite value: the hidden bit is set unless subnormal\<close>
  "f64_mant x = (if f64_expo x = 0 then f64_frac x else 2 ^ 52 + f64_frac x)"

definition f64_exp :: "f64 \<Rightarrow> int" where
  \<comment> \<open>exponent of the unit in the last place: a finite x is \<plusminus> f64_mant x * 2 ^ f64_exp x\<close>
  "f64_exp x = (if f64_expo x = 0 then - 1074 else int (f64_expo x) - 1075)"

definition pow2 :: "int \<Rightarrow> real" where
  "pow2 e = (if 0 \<le> e then 2 ^ nat e else 1 / 2 ^ nat (- e))"

definition f64_valof :: "f64 \<Rightarrow> real" where
  \<comment> \<open>the real number denoted by a finite bit pattern\<close>
  "f64_valof x = (if f64_sign x then - 1 else 1) * real (f64_mant x) * pow2 (f64_exp x)"

definition pos_zero :: f64 where "pos_zero = 0"
definition neg_zero :: f64 where "neg_zero = 0x8000000000000000"
definition pos_inf :: f64 where "pos_inf = 0x7FF0000000000000"
definition neg_inf :: f64 where "neg_inf = 0xFFF0000000000000"

definition default_nan :: f64 where
  \<comment> \<open>the QNaN "real indefinite" that SSE delivers for an invalid operation\<close>
  "default_nan = 0xFFF8000000000000"

definition quiet :: "f64 \<Rightarrow> f64" where
  \<comment> \<open>a NaN operand is delivered with its quiet bit (bit 51) set\<close>
  "quiet x = x OR 0x0008000000000000"

definition f64_neg :: "f64 \<Rightarrow> f64" where
  "f64_neg x = x XOR 0x8000000000000000"

subsection \<open>Rounding to nearest, ties to even\<close>

definition rne_pick :: "nat \<Rightarrow> nat \<Rightarrow> nat \<Rightarrow> nat" where
  \<comment> \<open>quotient \<open>q\<close> and remainder \<open>r\<close> of a division by \<open>p\<close>: round up above the half,
      and at the half when \<open>q\<close> is odd\<close>
  "rne_pick q r p = (if p < 2 * r \<or> (2 * r = p \<and> odd q) then q + 1 else q)"

definition rne_shift :: "nat \<Rightarrow> nat \<Rightarrow> nat" where
  \<comment> \<open>\<open>n / 2 ^ d\<close> rounded to the nearest integer, ties to even\<close>
  "rne_shift n d = rne_pick (n div 2 ^ d) (n mod 2 ^ d) (2 ^ d)"

definition f64_pack_ovf :: "bool \<Rightarrow> nat \<Rightarrow> f64" where
  \<comment> \<open>a magnitude beyond the largest finite one is delivered as infinity\<close>
  "f64_pack_ovf s mag =
     (if 2047 * 2 ^ 52 \<le> mag then f64_pack s (2047 * 2 ^ 52) else f64_pack s mag)"

definition round_f64_at :: "bool \<Rightarrow> nat \<Rightarrow> int \<Rightarrow> int \<Rightarrow> f64" where
  \<comment> \<open>\<open>\<plusminus> n * 2 ^ e\<close> with its \<open>d\<close> low bits rounded away (\<open>d \<le> 0\<close>: nothing to round).
      The magnitude is the biased exponent less one, times \<open>2 ^ 52\<close>, plus the
      significand with its leading bit, so that a significand rounded up to \<open>2 ^ 53\<close>
      carries into the exponent.\<close>
  "round_f64_at s n e d =
     f64_pack_ovf s
       (nat (e + d + 1074) * 2 ^ 52 + (if d \<le> 0 then n * 2 ^ nat (- d) else rne_shift n (nat d)))"

definition round_f64 :: "bool \<Rightarrow> nat \<Rightarrow> int \<Rightarrow> f64" where
  \<comment> \<open>the double nearest to \<open>\<plusminus> n * 2 ^ e\<close> (\<open>n > 0\<close>), ties to even, overflow to infinity:
      53 significant bits are kept, fewer below the smallest normal exponent\<close>
  "round_f64 s n e = round_f64_at s n e (max (int (floorlog 2 n) - 53) (- 1074 - e))"

subsection \<open>Arithmetic instructions on one lane\<close>

definition f64_sval :: "f64 \<Rightarrow> int \<Rightarrow> int" where
  \<comment> \<open>the finite x as a signed multiple of \<open>2 ^ e\<close>, for \<open>e \<le> f64_exp x\<close>\<close>
  "f64_sval x e = (if f64_sign x then - 1 else 1) * int (f64_mant x) * 2 ^ nat (f64_exp x - e)"

definition round_signed :: "bool \<Rightarrow> int \<Rightarrow> int \<Rightarrow> f64" where
  \<comment> \<open>the exact sum \<open>v * 2 ^ e\<close> rounded; an exact zero sum is \<open>-0\<close> only when both
      operands were negative\<close>
  "round_signed both_neg v e =
     (if v = 0 then (if both_neg then neg_zero else pos_zero)
      else round_f64 (v < 0) (nat \<bar>v\<bar>) e)"

definition f64_add_finite :: "f64 \<Rightarrow> f64 \<Rightarrow> int \<Rightarrow> f64" where
  "f64_add_finite a b e = round_signed (f64_sign a \<and> f64_sign b) (f64_sval a e + f64_sval b e) e"

definition f64_add :: "f64 \<Rightarrow> f64 \<Rightarrow> f64" where
  \<comment> \<open>ADDPD / ADDSD on one lane\<close>
  "f64_add a b =
     (if is_nan a then quiet a
      else if is_nan b then quiet b
      else if is_inf a then (if is_inf b \<and> f64_sign a \<noteq> f64_sign b then default_nan else a)
      else if is_inf b then b
      else f64_add_finite a b (min (f64_exp a) (f64_exp b)))"

definition f64_sub :: "f64 \<Rightarrow> f64 \<Rightarrow> f64" where
  \<comment> \<open>SUBPD on one lane: a NaN operand is delivered as it is, not negated\<close>
  "f64_sub a b =
     (if is_nan a then quiet a
      else if is_nan b then quiet b
      else f64_add a (f64_neg b))"

definition f64_mul :: "f64 \<Rightarrow> f64 \<Rightarrow> f64" where
  \<comment> \<open>MULPD on one lane\<close>
  "f64_mul a b =
     (if is_nan a then quiet a
      else if is_nan b then quiet b
      else if (is_inf a \<and> is_zero b) \<or> (is_zero a \<and> is_inf b) then default_nan
      else if is_inf a \<or> is_inf b then f64_pack (f64_sign a \<noteq> f64_sign b) (2047 * 2 ^ 52)
      else if is_zero a \<or> is_zero b then f64_pack (f64_sign a \<noteq> f64_sign b) 0
      else round_f64 (f64_sign a \<noteq> f64_sign b) (f64_mant a * f64_mant b) (f64_exp a + f64_exp b))"

definition sticky_round :: "bool \<Rightarrow> nat \<Rightarrow> bool \<Rightarrow> int \<Rightarrow> f64" where
  \<comment> \<open>rounds \<open>\<plusminus> (q + t) * 2 ^ e\<close> where \<open>0 \<le> t < 1\<close> and \<open>inexact\<close> says that \<open>t \<noteq> 0\<close>; \<open>q\<close> has
      at least 55 bits, so the appended sticky bit lies below the rounding position\<close>
  "sticky_round s q inexact e = round_f64 s (2 * q + (if inexact then 1 else 0)) (e - 1)"

definition f64_div :: "f64 \<Rightarrow> f64 \<Rightarrow> f64" where
  \<comment> \<open>DIVSD; the quotient of the significands is taken with 110 extra bits\<close>
  "f64_div a b =
     (if is_nan a then quiet a
      else if is_nan b then quiet b
      else if (is_inf a \<and> is_inf b) \<or> (is_zero a \<and> is_zero b) then default_nan
      else if is_inf a \<or> is_zero b then f64_pack (f64_sign a \<noteq> f64_sign b) (2047 * 2 ^ 52)
      else if is_inf b \<or> is_zero a then f64_pack (f64_sign a \<noteq> f64_sign b) 0
      else sticky_round (f64_sign a \<noteq> f64_sign b)
             (f64_mant a * 2 ^ 110 div f64_mant b)
             (f64_mant a * 2 ^ 110 mod f64_mant b \<noteq> 0)
             (f64_exp a - f64_exp b - 110))"

definition isqrt_step :: "nat \<Rightarrow> nat \<Rightarrow> nat" where
  "isqrt_step r n = (if (r + 1) * (r + 1) \<le> n then r + 1 else r)"

fun isqrt :: "nat \<Rightarrow> nat" where
  "isqrt n = (if n < 2 then n else isqrt_step (2 * isqrt (n div 4)) n)"

declare isqrt.simps [simp del]

definition sqrt_round :: "nat \<Rightarrow> nat \<Rightarrow> int \<Rightarrow> f64" where
  "sqrt_round r n e = sticky_round False r (r * r \<noteq> n) e"

definition f64_sqrt_even :: "nat \<Rightarrow> int \<Rightarrow> f64" where
  \<comment> \<open>the root of \<open>m * 2 ^ e\<close>, \<open>e\<close> even, from the integer root of \<open>m * 2 ^ 110\<close>\<close>
  "f64_sqrt_even m e = sqrt_round (isqrt (m * 2 ^ 110)) (m * 2 ^ 110) (e div 2 - 55)"

definition f64_sqrt :: "f64 \<Rightarrow> f64" where
  \<comment> \<open>SQRTSD\<close>
  "f64_sqrt x =
     (if is_nan x then quiet x
      else if is_zero x then x
      else if f64_sign x then default_nan
      else if is_inf x then x
      else if even (f64_exp x) then f64_sqrt_even (f64_mant x) (f64_exp x)
      else f64_sqrt_even (2 * f64_mant x) (f64_exp x - 1))"

subsection \<open>Comparison\<close>

definition f64_key :: "f64 \<Rightarrow> int" where
  \<comment> \<open>sign-and-magnitude reading of the bits: on values that are not NaN it is ordered as
      the values are, both zeros at 0 and the infinities at the two ends\<close>
  "f64_key x = (if f64_sign x then - int (f64_mag x) else int (f64_mag x))"

definition f64_lt :: "f64 \<Rightarrow> f64 \<Rightarrow> bool" where
  "f64_lt a b = (\<not> is_nan a \<and> \<not> is_nan b \<and> f64_key a < f64_key b)"

definition f64_le :: "f64 \<Rightarrow> f64 \<Rightarrow> bool" where
  "f64_le a b = (\<not> is_nan a \<and> \<not> is_nan b \<and> f64_key a \<le> f64_key b)"

definition f64_eq :: "f64 \<Rightarrow> f64 \<Rightarrow> bool" where
  "f64_eq a b = (\<not> is_nan a \<and> \<not> is_nan b \<and> f64_key a = f64_key b)"


definition f64_max :: "f64 \<Rightarrow> f64 \<Rightarrow> f64" where
  \<comment> \<open>MAXPD on one lane: the second operand when both are zeros or either is NaN\<close>
  "f64_max a b =
     (if is_zero a \<and> is_zero b then b
      else if is_nan a then b
      else if is_nan b then b
      else if f64_lt b a then a else b)"

definition f64_min :: "f64 \<Rightarrow> f64 \<Rightarrow> f64" where
  \<comment> \<open>MINPD on one lane: the second operand when both are zeros or either is NaN\<close>
  "f64_min a b =
     (if is_zero a \<and> is_zero b then b
      else if is_nan a then b
      else if is_nan b then b
      else if f64_lt a b then a else b)"

subsection \<open>Conversions between doubles and 32-bit integers\<close>

definition f64_of_int :: "int \<Rightarrow> f64" where
  \<comment> \<open>exact for every 32-bit integer\<close>
  "f64_of_int i = (if i = 0 then pos_zero else round_f64 (i < 0) (nat \<bar>i\<bar>) 0)"

definition i32_indefinite :: "32 word" where
  \<comment> \<open>the "integer indefinite" delivered when the conversion is invalid\<close>
  "i32_indefinite = 0x80000000"

definition i32_checked :: "int \<Rightarrow> 32 word" where
  \<comment> \<open>two's complement of an integer in the 32-bit range\<close>
  "i32_checked i =
     (if - (2 ^ 31) \<le> i \<and> i < 2 ^ 31 then word_of_int (i mod 2 ^ 32) else i32_indefinite)"

definition signed :: "bool \<Rightarrow> nat \<Rightarrow> int" where
  "signed s n = (if s then - int n else int n)"

definition f64_rint :: "f64 \<Rightarrow> int" where
  \<comment> \<open>a finite value rounded to the nearest integer, ties to even\<close>
  "f64_rint x =
     signed (f64_sign x)
       (if 0 \<le> f64_exp x then f64_mant x * 2 ^ nat (f64_exp x)
        else rne_shift (f64_mant x) (nat (- f64_exp x)))"

definition f64_trunc :: "f64 \<Rightarrow> int" where
  \<comment> \<open>a finite value with its fractional part dropped\<close>
  "f64_trunc x =
     signed (f64_sign x)
       (if 0 \<le> f64_exp x then f64_mant x * 2 ^ nat (f64_exp x)
        else f64_mant x div 2 ^ nat (- f64_exp x))"

definition cvtsd_i32 :: "f64 \<Rightarrow> 32 word" where
  \<comment> \<open>one lane of CVTPD2DQ: rounds as MXCSR says (to nearest even); NaN, infinities and
      results outside the 32-bit range give the integer indefinite\<close>
  "cvtsd_i32 x = (if is_finite x then i32_checked (f64_rint x) else i32_indefinite)"

definition cvttsd_i32 :: "f64 \<Rightarrow> 32 word" where
  \<comment> \<open>one lane of CVTTPD2DQ: truncates\<close>
  "cvttsd_i32 x = (if is_finite x then i32_checked (f64_trunc x) else i32_indefinite)"

section \<open>SSE2 registers and intrinsics\<close>

text \<open>
  A 128-bit register is its two 64-bit halves; \<^verbatim>\<open>__m128d\<close>, \<^verbatim>\<open>__m128i\<close> and \<^verbatim>\<open>__m128\<close> are
  the same bits, and the \<^verbatim>\<open>_mm_cast*\<close> intrinsics change the static type only.
\<close>

record m128 =
  lo :: "64 word"
  hi :: "64 word"

type_synonym m128d = m128
type_synonym m128i = m128

definition lane32 :: "m128 \<Rightarrow> nat \<Rightarrow> 32 word" where
  \<comment> \<open>the register as four 32-bit lanes, lane 0 the lowest\<close>
  "lane32 r k =
     (if k = 0 then ucast (lo r)
      else if k = 1 then ucast (drop_bit 32 (lo r))
      else if k = 2 then ucast (hi r)
      else ucast (drop_bit 32 (hi r)))"

definition cat32 :: "32 word \<Rightarrow> 32 word \<Rightarrow> 64 word" where
  "cat32 upper lower = push_bit 32 (ucast upper) OR ucast lower"

definition of_lanes32 :: "32 word \<Rightarrow> 32 word \<Rightarrow> 32 word \<Rightarrow> 32 word \<Rightarrow> m128" where
  "of_lanes32 a b c d = \<lparr>lo = cat32 b a, hi = cat32 d c\<rparr>"

definition mm_castsi128_pd :: "m128i \<Rightarrow> m128d" where "mm_castsi128_pd r = r"
definition mm_castpd_si128 :: "m128d \<Rightarrow> m128i" where "mm_castpd_si128 r = r"
definition mm_castpd_ps :: "m128d \<Rightarrow> m128" where "mm_castpd_ps r = r"
definition mm_castps_pd :: "m128 \<Rightarrow> m128d" where "mm_castps_pd r = r"

definition mm_set_epi64x :: "64 word \<Rightarrow> 64 word \<Rightarrow> m128i" where
  \<comment> \<open>arguments from the high element down\<close>
  "mm_set_epi64x e1 e0 = \<lparr>lo = e0, hi = e1\<rparr>"

definition mm_set_pd :: "f64 \<Rightarrow> f64 \<Rightarrow> m128d" where
  "mm_set_pd e1 e0 = \<lparr>lo = e0, hi = e1\<rparr>"

definition mm_set1_pd :: "f64 \<Rightarrow> m128d" where
  "mm_set1_pd a = \<lparr>lo = a, hi = a\<rparr>"

definition mm_setzero_pd :: m128d where
  "mm_setzero_pd = \<lparr>lo = 0, hi = 0\<rparr>"

definition lanewise :: "(f64 \<Rightarrow> f64 \<Rightarrow> f64) \<Rightarrow> m128d \<Rightarrow> m128d \<Rightarrow> m128d" where
  "lanewise f a b = \<lparr>lo = f (lo a) (lo b), hi = f (hi a) (hi b)\<rparr>"

definition mm_add_pd :: "m128d \<Rightarrow> m128d \<Rightarrow> m128d" where "mm_add_pd = lanewise f64_add"
definition mm_sub_pd :: "m128d \<Rightarrow> m128d \<Rightarrow> m128d" where "mm_sub_pd = lanewise f64_sub"
definition mm_mul_pd :: "m128d \<Rightarrow> m128d \<Rightarrow> m128d" where "mm_mul_pd = lanewise f64_mul"
definition mm_max_pd :: "m128d \<Rightarrow> m128d \<Rightarrow> m128d" where "mm_max_pd = lanewise f64_max"
definition mm_min_pd :: "m128d \<Rightarrow> m128d \<Rightarrow> m128d" where "mm_min_pd = lanewise f64_min"

definition mm_and_pd :: "m128d \<Rightarrow> m128d \<Rightarrow> m128d" where
  "mm_and_pd = lanewise (\<lambda>a b. a AND b)"

definition mm_or_pd :: "m128d \<Rightarrow> m128d \<Rightarrow> m128d" where
  "mm_or_pd = lanewise (\<lambda>a b. a OR b)"

definition mm_andnot_pd :: "m128d \<Rightarrow> m128d \<Rightarrow> m128d" where
  \<comment> \<open>the complement is taken of the first operand\<close>
  "mm_andnot_pd = lanewise (\<lambda>a b. NOT a AND b)"

definition mm_add_sd :: "m128d \<Rightarrow> m128d \<Rightarrow> m128d" where
  \<comment> \<open>the low lanes are added, the high lane is the first operand's\<close>
  "mm_add_sd a b = \<lparr>lo = f64_add (lo a) (lo b), hi = hi a\<rparr>"

definition mm_cvtsd_f64 :: "m128d \<Rightarrow> f64" where
  "mm_cvtsd_f64 a = lo a"

definition mm_shuffle_pd :: "m128d \<Rightarrow> m128d \<Rightarrow> nat \<Rightarrow> m128d" where
  "mm_shuffle_pd a b imm =
     \<lparr>lo = (if even imm then lo a else hi a), hi = (if even (imm div 2) then lo b else hi b)\<rparr>"

definition MM_SHUFFLE :: "nat \<Rightarrow> nat \<Rightarrow> nat \<Rightarrow> nat \<Rightarrow> nat" where
  "MM_SHUFFLE z y x w = z * 64 + y * 16 + x * 4 + w"

definition mm_shuffle_ps :: "m128 \<Rightarrow> m128 \<Rightarrow> nat \<Rightarrow> m128" where
  \<comment> \<open>the two low lanes are picked from the first operand, the two high ones from the second\<close>
  "mm_shuffle_ps a b imm =
     of_lanes32 (lane32 a (imm mod 4)) (lane32 a (imm div 4 mod 4))
                (lane32 b (imm div 16 mod 4)) (lane32 b (imm div 64 mod 4))"

definition mask_of :: "bool \<Rightarrow> 64 word" where
  \<comment> \<open>a comparison fills the lane with ones or with zeros\<close>
  "mask_of c = (if c then 0xFFFFFFFFFFFFFFFF else 0)"

definition mm_cmpeq_pd :: "m128d \<Rightarrow> m128d \<Rightarrow> m128d" where
  "mm_cmpeq_pd = lanewise (\<lambda>a b. mask_of (f64_eq a b))"

definition mm_cmpneq_pd :: "m128d \<Rightarrow> m128d \<Rightarrow> m128d" where
  \<comment> \<open>true also when the operands are unordered\<close>
  "mm_cmpneq_pd = lanewise (\<lambda>a b. mask_of (\<not> f64_eq a b))"

definition mm_cmplt_pd :: "m128d \<Rightarrow> m128d \<Rightarrow> m128d" where
  "mm_cmplt_pd = lanewise (\<lambda>a b. mask_of (f64_lt a b))"

definition mm_cmpgt_pd :: "m128d \<Rightarrow> m128d \<Rightarrow> m128d" where
  "mm_cmpgt_pd = lanewise (\<lambda>a b. mask_of (f64_lt b a))"

definition mm_cmpge_pd :: "m128d \<Rightarrow> m128d \<Rightarrow> m128d" where
  "mm_cmpge_pd = lanewise (\<lambda>a b. mask_of (f64_le b a))"

definition mm_movemask_pd :: "m128d \<Rightarrow> int" where
  \<comment> \<open>the two sign bits as a 2-bit integer\<close>
  "mm_movemask_pd a = (if f64_sign (lo a) then 1 else 0) + (if f64_sign (hi a) then 2 else 0)"

definition mm_cvtpd_epi32 :: "m128d \<Rightarrow> m128i" where
  "mm_cvtpd_epi32 a = of_lanes32 (cvtsd_i32 (lo a)) (cvtsd_i32 (hi a)) 0 0"

definition mm_cvttpd_epi32 :: "m128d \<Rightarrow> m128i" where
  "mm_cvttpd_epi32 a = of_lanes32 (cvttsd_i32 (lo a)) (cvttsd_i32 (hi a)) 0 0"

definition mm_cvtepi32_pd :: "m128i \<Rightarrow> m128d" where
  \<comment> \<open>the two low 32-bit lanes, read as signed\<close>
  "mm_cvtepi32_pd a = \<lparr>lo = f64_of_int (sint (lane32 a 0)), hi = f64_of_int (sint (lane32 a 1))\<rparr>"


section \<open>The vector types\<close>

text \<open>
  With SSE2, \<^verbatim>\<open>vector4d\<close> and \<^verbatim>\<open>mask4d\<close> are two registers each, \<^verbatim>\<open>xy\<close> and \<^verbatim>\<open>zw\<close>, and
  \<^verbatim>\<open>scalard\<close> is one register whose low lane is the value. (The fields of \<^verbatim>\<open>mask4d\<close>
  and the field \<^verbatim>\<open>value\<close> of \<^verbatim>\<open>scalard\<close> carry a prefix here.)
\<close>

record vector4d =
  xy :: m128d
  zw :: m128d

record mask4d =
  mask_xy :: m128d
  mask_zw :: m128d

record scalard =
  sd_value :: m128d

text \<open>
  Modelled from the spec: \<^verbatim>\<open>vector_set\<close> (four doubles, and the broadcast of one double or
  of one \<^verbatim>\<open>scalard\<close>) and \<^verbatim>\<open>vector_zero\<close> are declared in \<^verbatim>\<open>rtm/impl/vector_common.h\<close>,
  which is not part of the sources at hand. They build a vector from its lanes x, y, z, w.
\<close>

definition vector_set :: "f64 \<Rightarrow> f64 \<Rightarrow> f64 \<Rightarrow> f64 \<Rightarrow> vector4d" where
  "vector_set x y z w = \<lparr>xy = mm_set_pd y x, zw = mm_set_pd w z\<rparr>"

definition vector_set1 :: "f64 \<Rightarrow> vector4d" where
  "vector_set1 xyzw = \<lparr>xy = mm_set1_pd xyzw, zw = mm_set1_pd xyzw\<rparr>"

definition vector_zero :: vector4d where
  "vector_zero = \<lparr>xy = mm_setzero_pd, zw = mm_setzero_pd\<rparr>"

text \<open>
  Modelled from the spec: \<^verbatim>\<open>scalar_cast\<close>, \<^verbatim>\<open>scalar_sqrt\<close> and \<^verbatim>\<open>scalar_sqrt_reciprocal\<close> are
  defined in \<^verbatim>\<open>rtm/scalard.h\<close>, which is not part of the sources at hand. The spec has
  \<^verbatim>\<open>scalard\<close> "semantically identical to a raw double", the length as "sqrt of the above"
  and the reciprocal length as \<^verbatim>\<open>1/sqrt(length_squared)\<close>. Only the low lane of the result
  is ever read; the high lane is kept from the argument.
\<close>

definition scalar_cast :: "scalard \<Rightarrow> f64" where
  "scalar_cast s = mm_cvtsd_f64 (sd_value s)"

definition scalar_sqrt :: "scalard \<Rightarrow> scalard" where
  "scalar_sqrt s = \<lparr>sd_value = \<lparr>lo = f64_sqrt (lo (sd_value s)), hi = hi (sd_value s)\<rparr>\<rparr>"

definition f64_one :: f64 where "f64_one = 0x3FF0000000000000"

definition scalar_sqrt_reciprocal :: "scalard \<Rightarrow> scalard" where
  "scalar_sqrt_reciprocal s =
     \<lparr>sd_value = \<lparr>lo = f64_div f64_one (f64_sqrt (lo (sd_value s))), hi = hi (sd_value s)\<rparr>\<rparr>"

section \<open>\<^verbatim>\<open>vector4d.h\<close>\<close>

subsection \<open>Getters\<close>

definition vector_get_x :: "vector4d \<Rightarrow> f64" where
  "vector_get_x input = mm_cvtsd_f64 (xy input)"

definition vector_get_y :: "vector4d \<Rightarrow> f64" where
  "vector_get_y input = mm_cvtsd_f64 (mm_shuffle_pd (xy input) (xy input) 1)"

definition vector_get_z :: "vector4d \<Rightarrow> f64" where
  "vector_get_z input = mm_cvtsd_f64 (zw input)"

definition vector_get_w :: "vector4d \<Rightarrow> f64" where
  "vector_get_w input = mm_cvtsd_f64 (mm_shuffle_pd (zw input) (zw input) 1)"

subsection \<open>Arithmetic\<close>

definition vector_add :: "vector4d \<Rightarrow> vector4d \<Rightarrow> vector4d" where
  "vector_add lhs rhs = \<lparr>xy = mm_add_pd (xy lhs) (xy rhs), zw = mm_add_pd (zw lhs) (zw rhs)\<rparr>"

definition vector_sub :: "vector4d \<Rightarrow> vector4d \<Rightarrow> vector4d" where
  "vector_sub lhs rhs = \<lparr>xy = mm_sub_pd (xy lhs) (xy rhs), zw = mm_sub_pd (zw lhs) (zw rhs)\<rparr>"

definition vector_mul :: "vector4d \<Rightarrow> vector4d \<Rightarrow> vector4d" where
  "vector_mul lhs rhs = \<lparr>xy = mm_mul_pd (xy lhs) (xy rhs), zw = mm_mul_pd (zw lhs) (zw rhs)\<rparr>"

definition vector_mul_d :: "vector4d \<Rightarrow> f64 \<Rightarrow> vector4d" where
  \<comment> \<open>the overload with a \<^verbatim>\<open>double\<close> on the right\<close>
  "vector_mul_d lhs rhs = vector_mul lhs (vector_set1 rhs)"

definition vector_mul_sd :: "vector4d \<Rightarrow> scalard \<Rightarrow> vector4d" where
  \<comment> \<open>the overload with a \<^verbatim>\<open>scalard\<close> on the right\<close>
  "vector_mul_sd lhs rhs =
     \<lparr>xy = mm_mul_pd (xy lhs) (mm_shuffle_pd (sd_value rhs) (sd_value rhs) 0),
      zw = mm_mul_pd (zw lhs) (mm_shuffle_pd (sd_value rhs) (sd_value rhs) 0)\<rparr>"

definition vector_max :: "vector4d \<Rightarrow> vector4d \<Rightarrow> vector4d" where
  "vector_max lhs rhs = \<lparr>xy = mm_max_pd (xy lhs) (xy rhs), zw = mm_max_pd (zw lhs) (zw rhs)\<rparr>"

definition vector_min :: "vector4d \<Rightarrow> vector4d \<Rightarrow> vector4d" where
  "vector_min lhs rhs = \<lparr>xy = mm_min_pd (xy lhs) (xy rhs), zw = mm_min_pd (zw lhs) (zw rhs)\<rparr>"

definition vector_clamp :: "vector4d \<Rightarrow> vector4d \<Rightarrow> vector4d \<Rightarrow> vector4d" where
  "vector_clamp input min_value max_value = vector_min max_value (vector_max min_value input)"

subsection \<open>Ceiling and floor\<close>

definition abs_mask :: m128i where
  "abs_mask = mm_set_epi64x 0x7FFFFFFFFFFFFFFF 0x7FFFFFFFFFFFFFFF"

definition fractional_limit :: m128d where
  \<comment> \<open>4503599627370496.0, that is \<open>2 ^ 52\<close>\<close>
  "fractional_limit = mm_set1_pd 0x4330000000000000"

definition is_input_large :: "m128d \<Rightarrow> m128d" where
  "is_input_large input =
     mm_cmpge_pd (mm_and_pd input (mm_castsi128_pd abs_mask)) fractional_limit"

definition use_original_input :: "m128d \<Rightarrow> m128d" where
  \<comment> \<open>the mask of the lanes returned as they are: large values, infinities and NaN\<close>
  "use_original_input input = mm_or_pd (is_input_large input) (mm_cmpneq_pd input input)"

definition narrow_mask :: "m128d \<Rightarrow> m128d" where
  \<comment> \<open>the 64-bit masks narrowed to 32 bits each, in the two low 32-bit lanes\<close>
  "narrow_mask m =
     mm_castps_pd (mm_shuffle_ps (mm_castpd_ps m) (mm_castpd_ps m) (MM_SHUFFLE 2 0 2 0))"

definition blend_original :: "m128d \<Rightarrow> m128d \<Rightarrow> m128d \<Rightarrow> m128d" where
  "blend_original use_original input integer_part =
     mm_or_pd (mm_and_pd use_original input) (mm_andnot_pd use_original integer_part)"

definition integer_part_pd :: "m128d \<Rightarrow> m128d" where
  \<comment> \<open>"convert to an integer and back"; the conversion rounds as MXCSR says\<close>
  "integer_part_pd input = mm_cvtepi32_pd (mm_cvtpd_epi32 input)"

definition bias_pd :: "m128d \<Rightarrow> m128d" where
  \<comment> \<open>a comparison mask as a bias: all ones is the integer -1 and becomes -1.0\<close>
  "bias_pd m = mm_cvtepi32_pd (mm_castpd_si128 (narrow_mask m))"

definition ceil_adjust_pd :: "m128d \<Rightarrow> m128d \<Rightarrow> m128d" where
  \<comment> \<open>the bias is subtracted where the integer part is smaller than the input\<close>
  "ceil_adjust_pd input integer_part =
     mm_sub_pd integer_part (bias_pd (mm_cmplt_pd integer_part input))"

definition ceil_pd :: "m128d \<Rightarrow> m128d" where
  \<comment> \<open>what \<^verbatim>\<open>vector_ceil\<close> does to each of its two registers\<close>
  "ceil_pd input =
     blend_original (use_original_input input) input
       (ceil_adjust_pd input (integer_part_pd input))"

definition vector_ceil :: "vector4d \<Rightarrow> vector4d" where
  "vector_ceil input = \<lparr>xy = ceil_pd (xy input), zw = ceil_pd (zw input)\<rparr>"

definition floor_adjust_pd :: "m128d \<Rightarrow> m128d \<Rightarrow> m128d" where
  \<comment> \<open>the bias is added where the integer part is greater than the input\<close>
  "floor_adjust_pd input integer_part =
     mm_add_pd integer_part (bias_pd (mm_cmpgt_pd integer_part input))"

definition floor_pd :: "m128d \<Rightarrow> m128d" where
  \<comment> \<open>what \<^verbatim>\<open>vector_floor\<close> does to each of its two registers\<close>
  "floor_pd input =
     blend_original (use_original_input input) input
       (floor_adjust_pd input (integer_part_pd input))"

definition vector_floor :: "vector4d \<Rightarrow> vector4d" where
  "vector_floor input = \<lparr>xy = floor_pd (xy input), zw = floor_pd (zw input)\<rparr>"

subsection \<open>Dot product, length, distance, normalization\<close>

definition dot3_sum :: "m128d \<Rightarrow> m128d \<Rightarrow> m128d" where
  \<comment> \<open>from the products \<^verbatim>\<open>x2_y2\<close> and \<^verbatim>\<open>z2_w2\<close>: \<open>(x2 + y2) + z2\<close> in the low lane\<close>
  "dot3_sum x2_y2 z2_w2 = mm_add_sd (mm_add_sd x2_y2 (mm_shuffle_pd x2_y2 x2_y2 1)) z2_w2"

definition vector_dot3_sd :: "vector4d \<Rightarrow> vector4d \<Rightarrow> scalard" where
  \<comment> \<open>\<^verbatim>\<open>vector4d_vector_dot3::operator scalard\<close>\<close>
  "vector_dot3_sd lhs rhs =
     \<lparr>sd_value = dot3_sum (mm_mul_pd (xy lhs) (xy rhs)) (mm_mul_pd (zw lhs) (zw rhs))\<rparr>"

definition vector_dot3 :: "vector4d \<Rightarrow> vector4d \<Rightarrow> f64" where
  \<comment> \<open>\<^verbatim>\<open>vector4d_vector_dot3::operator double\<close>\<close>
  "vector_dot3 lhs rhs =
     mm_cvtsd_f64 (dot3_sum (mm_mul_pd (xy lhs) (xy rhs)) (mm_mul_pd (zw lhs) (zw rhs)))"

definition vector_length_squared3_sd :: "vector4d \<Rightarrow> scalard" where
  "vector_length_squared3_sd input = vector_dot3_sd input input"

definition vector_length3 :: "vector4d \<Rightarrow> f64" where
  \<comment> \<open>\<^verbatim>\<open>vector4d_vector_length3::operator double\<close>\<close>
  "vector_length3 input = scalar_cast (scalar_sqrt (vector_length_squared3_sd input))"

definition vector_distance3 :: "vector4d \<Rightarrow> vector4d \<Rightarrow> f64" where
  "vector_distance3 lhs rhs = vector_length3 (vector_sub lhs rhs)"

definition normalize3_with :: "vector4d \<Rightarrow> vector4d \<Rightarrow> f64 \<Rightarrow> scalard \<Rightarrow> vector4d" where
  \<comment> \<open>the body after \<^verbatim>\<open>len_sq\<close> is computed; \<^verbatim>\<open>>=\<close> on doubles is false when either is NaN\<close>
  "normalize3_with input fallback threshold len_sq =
     (if f64_le threshold (scalar_cast len_sq)
      then vector_mul_sd input (scalar_sqrt_reciprocal len_sq)
      else fallback)"

definition vector_normalize3 :: "vector4d \<Rightarrow> vector4d \<Rightarrow> f64 \<Rightarrow> vector4d" where
  \<comment> \<open>the overload with a fallback and a threshold\<close>
  "vector_normalize3 input fallback threshold =
     normalize3_with input fallback threshold (vector_length_squared3_sd input)"

definition default_threshold :: f64 where
  \<comment> \<open>the default argument \<^verbatim>\<open>1.0E-8\<close>\<close>
  "default_threshold = 0x3E45798EE2308C3A"

subsection \<open>Multiply-add and interpolation\<close>

definition vector_mul_add_d :: "vector4d \<Rightarrow> f64 \<Rightarrow> vector4d \<Rightarrow> vector4d" where
  "vector_mul_add_d v0 s1 v2 = vector_add (vector_mul_d v0 s1) v2"

definition vector_neg_mul_sub_d :: "vector4d \<Rightarrow> f64 \<Rightarrow> vector4d \<Rightarrow> vector4d" where
  "vector_neg_mul_sub_d v0 s1 v2 = vector_sub v2 (vector_mul_d v0 s1)"

definition vector_lerp :: "vector4d \<Rightarrow> vector4d \<Rightarrow> f64 \<Rightarrow> vector4d" where
  \<comment> \<open>the overload whose \<^verbatim>\<open>alpha\<close> is a \<^verbatim>\<open>double\<close>; \<^verbatim>\<open>end\<close> is a keyword here\<close>
  "vector_lerp start end_v alpha =
     vector_mul_add_d end_v alpha (vector_neg_mul_sub_d start alpha start)"

subsection \<open>Comparisons and masking\<close>

definition vector_greater_equal :: "vector4d \<Rightarrow> vector4d \<Rightarrow> mask4d" where
  "vector_greater_equal lhs rhs =
     \<lparr>mask_xy = mm_cmpge_pd (xy lhs) (xy rhs), mask_zw = mm_cmpge_pd (zw lhs) (zw rhs)\<rparr>"

definition int_and :: "int \<Rightarrow> int \<Rightarrow> int" where
  "int_and a b = a AND b"

definition int_or :: "int \<Rightarrow> int \<Rightarrow> int" where
  "int_or a b = a OR b"

definition vector_all_less_than :: "vector4d \<Rightarrow> vector4d \<Rightarrow> bool" where
  "vector_all_less_than lhs rhs =
     (int_and (mm_movemask_pd (mm_cmplt_pd (xy lhs) (xy rhs)))
              (mm_movemask_pd (mm_cmplt_pd (zw lhs) (zw rhs))) = 3)"

definition vector_any_greater_equal :: "vector4d \<Rightarrow> vector4d \<Rightarrow> bool" where
  "vector_any_greater_equal lhs rhs =
     (int_or (mm_movemask_pd (mm_cmpge_pd (xy lhs) (xy rhs)))
             (mm_movemask_pd (mm_cmpge_pd (zw lhs) (zw rhs))) \<noteq> 0)"

definition vector_select :: "mask4d \<Rightarrow> vector4d \<Rightarrow> vector4d \<Rightarrow> vector4d" where
  "vector_select msk if_true if_false =
     \<lparr>xy = mm_or_pd (mm_andnot_pd (mask_xy msk) (xy if_false)) (mm_and_pd (xy if_true) (mask_xy msk)),
      zw = mm_or_pd (mm_andnot_pd (mask_zw msk) (zw if_false)) (mm_and_pd (zw if_true) (mask_zw msk))\<rparr>"

subsection \<open>Sign and rounding\<close>

definition f64_minus_one :: f64 where "f64_minus_one = 0xBFF0000000000000"
definition f64_half :: f64 where "f64_half = 0x3FE0000000000000"

definition vector_sign :: "vector4d \<Rightarrow> vector4d" where
  "vector_sign input =
     vector_select (vector_greater_equal input vector_zero)
       (vector_set1 f64_one) (vector_set1 f64_minus_one)"

definition sign_mask :: m128d where
  "sign_mask = mm_set_pd neg_zero neg_zero"

definition round_symmetric_pd :: "m128d \<Rightarrow> m128d" where
  \<comment> \<open>what \<^verbatim>\<open>vector_round_symmetric\<close> does to each of its two registers: a bias of 0.5 with
      the sign of the input is added and the sum is truncated through a 32-bit integer\<close>
  "round_symmetric_pd input =
     blend_original (use_original_input input) input
       (mm_cvtepi32_pd (mm_cvttpd_epi32
          (mm_add_pd input (mm_or_pd (mm_and_pd input sign_mask) (mm_set1_pd f64_half)))))"

definition vector_round_symmetric :: "vector4d \<Rightarrow> vector4d" where
  "vector_round_symmetric input =
     \<lparr>xy = round_symmetric_pd (xy input), zw = round_symmetric_pd (zw input)\<rparr>"

definition truncating_offset :: "m128d \<Rightarrow> m128d" where
  \<comment> \<open>\<open>2 ^ 52\<close> with the sign of the input\<close>
  "truncating_offset input = mm_or_pd (mm_and_pd input sign_mask) fractional_limit"

definition add_sub_offset :: "m128d \<Rightarrow> m128d \<Rightarrow> m128d" where
  \<comment> \<open>adding and subtracting the offset leaves the input rounded to an integer\<close>
  "add_sub_offset input offset = mm_sub_pd (mm_add_pd input offset) offset"

definition round_bankers_pd :: "m128d \<Rightarrow> m128d" where
  \<comment> \<open>what \<^verbatim>\<open>vector_round_bankers\<close> does to each of its two registers; there is no NaN mask\<close>
  "round_bankers_pd input =
     blend_original (is_input_large input) input
       (add_sub_offset input (truncating_offset input))"

definition vector_round_bankers :: "vector4d \<Rightarrow> vector4d" where
  "vector_round_bankers input =
     \<lparr>xy = round_bankers_pd (xy input), zw = round_bankers_pd (zw input)\<rparr>"

section \<open>Lanes\<close>

text \<open>The four lanes of a vector, in the order x, y, z, w, as the getters read them.\<close>

definition lanes :: "vector4d \<Rightarrow> f64 list" where
  "lanes v = [vector_get_x v, vector_get_y v, vector_get_z v, vector_get_w v]"

definition lane :: "vector4d \<Rightarrow> nat \<Rightarrow> f64" where
  "lane v k = lanes v ! k"

definition qnan :: f64 where
  \<comment> \<open>a quiet NaN with an empty payload\<close>
  "qnan = 0x7FF8000000000000"

definition snan :: f64 where
  \<comment> \<open>a signalling NaN: the quiet bit is clear and the payload is 1\<close>
  "snan = 0x7FF0000000000001"

definition sign_lane :: "f64 \<Rightarrow> f64" where
  \<comment> \<open>\<^verbatim>\<open>vector_sign\<close> on one lane\<close>
  "sign_lane x = (if f64_le 0 x then f64_one else f64_minus_one)"

definition unchanged_class :: "f64 \<Rightarrow> bool" where
  \<comment> \<open>the infinities and the finite values of magnitude at least \<open>2 ^ 52\<close>\<close>
  "unchanged_class x \<longleftrightarrow> is_inf x \<or> (is_finite x \<and> 2 ^ 52 \<le> \<bar>f64_valof x\<bar>)"

definition lerp_lane :: "f64 \<Rightarrow> f64 \<Rightarrow> f64 \<Rightarrow> f64" where
  \<comment> \<open>\<^verbatim>\<open>vector_lerp\<close> on one lane: \<open>end * alpha + (start - start * alpha)\<close>\<close>
  "lerp_lane s e alpha = f64_add (f64_mul e alpha) (f64_sub s (f64_mul s alpha))"

definition drop_zero_sign :: "f64 \<Rightarrow> f64" where
  \<comment> \<open>\<open>-0.0\<close> read as \<open>+0.0\<close>, every other value as it is\<close>
  "drop_zero_sign x = (if x = neg_zero then pos_zero else x)"

definition square_diff :: "f64 \<Rightarrow> f64 \<Rightarrow> f64" where
  "square_diff a b = f64_mul (f64_sub a b) (f64_sub a b)"

definition distance3_lanes :: "f64 \<Rightarrow> f64 \<Rightarrow> f64 \<Rightarrow> f64 \<Rightarrow> f64 \<Rightarrow> f64 \<Rightarrow> f64" where
  \<comment> \<open>\<^verbatim>\<open>vector_distance3\<close> in terms of the x, y, z lanes of its two arguments\<close>
  "distance3_lanes ax ay az bx b_y bz =
     f64_sqrt (f64_add (f64_add (square_diff ax bx) (square_diff ay b_y)) (square_diff az bz))"

definition qnan1 :: f64 where
  \<comment> \<open>a quiet NaN with payload 1\<close>
  "qnan1 = 0x7FF8000000000001"

definition f64_units :: "f64 \<Rightarrow> nat" where
  \<comment> \<open>the magnitude of a finite value in units of \<open>2 ^ - 1074\<close>\<close>
  "f64_units x = f64_mant x * 2 ^ nat (f64_exp x + 1074)"

text \<open>
  The two roundings to an integer that the spec names, on real numbers: "round half to
  even" and "round half away from zero".
\<close>

definition round_half_even :: "real \<Rightarrow> int" where
  \<comment> \<open>the nearest integer; half way between two integers, the even one\<close>
  "round_half_even r =
     (if r - of_int \<lfloor>r\<rfloor> < 1 / 2 then \<lfloor>r\<rfloor>
      else if 1 / 2 < r - of_int \<lfloor>r\<rfloor> then \<lfloor>r\<rfloor> + 1
      else if even \<lfloor>r\<rfloor> then \<lfloor>r\<rfloor> else \<lfloor>r\<rfloor> + 1)"


section \<open>Facts about the bit fields\<close>

lemma unat_lt64: "unat (x :: 64 word) < 2 ^ 64"
  using unsigned_less [of x, where 'a = nat] by simp

lemma f64_mag_lt: "f64_mag x < 2 ^ 63"
  by (simp add: f64_mag_def)

lemma f64_frac_lt: "f64_frac x < 2 ^ 52"
  by (simp add: f64_frac_def)

lemma f64_frac_mag: "f64_frac x = f64_mag x mod 2 ^ 52"
proof -
  have "(2::nat) ^ 52 dvd 2 ^ 63" by (rule le_imp_power_dvd) simp
  then show ?thesis
    unfolding f64_frac_def f64_mag_def by (simp only: mod_mod_cancel)
qed

lemma f64_mag_split: "f64_mag x = f64_expo x * 2 ^ 52 + f64_frac x"
  unfolding f64_frac_mag f64_expo_def by simp

lemma f64_expo_lt: "f64_expo x < 2048"
proof -
  have "f64_mag x < 2048 * 2 ^ 52" using f64_mag_lt [of x] by simp
  then show ?thesis unfolding f64_expo_def by (simp add: less_mult_imp_div_less)
qed

lemma unat_split: "unat x = (if f64_sign x then 2 ^ 63 else 0) + f64_mag x"
proof (cases "f64_sign x")
  case True
  then have "2 ^ 63 \<le> unat x" by (simp add: f64_sign_def)
  moreover have "unat x < 2 ^ 63 + 2 ^ 63" using unat_lt64 [of x] by simp
  ultimately have "unat x mod 2 ^ 63 = unat x - 2 ^ 63"
    by (metis add_diff_inverse_nat le_mod_geq mod_less nat_add_left_cancel_less not_less)
  with True \<open>2 ^ 63 \<le> unat x\<close> show ?thesis by (simp add: f64_mag_def)
next
  case False
  then show ?thesis by (simp add: f64_sign_def f64_mag_def)
qed

lemma pack_unpack: "f64_pack (f64_sign x) (f64_mag x) = x"
  unfolding f64_pack_def unat_split [symmetric] by simp

lemma unat_word_of_nat64: "n < 2 ^ 64 \<Longrightarrow> unat (word_of_nat n :: 64 word) = n"
  by (simp only: unat_of_nat len_bit0 len_of_numeral_defs mod_less) simp

lemma unat_pack: "m < 2 ^ 63 \<Longrightarrow> unat (f64_pack s m) = (if s then 2 ^ 63 else 0) + m"
proof -
  assume "m < 2 ^ 63"
  then have "(if s then 2 ^ 63 else 0) + m < (2::nat) ^ 64" by simp
  then show ?thesis unfolding f64_pack_def by (rule unat_word_of_nat64)
qed

lemma sign_pack [simp]: "m < 2 ^ 63 \<Longrightarrow> f64_sign (f64_pack s m) = s"
  by (simp add: f64_sign_def unat_pack)

lemma mag_pack [simp]: "m < 2 ^ 63 \<Longrightarrow> f64_mag (f64_pack s m) = m"
  by (simp add: f64_mag_def unat_pack)

lemma f64_eqI: "f64_sign x = f64_sign y \<Longrightarrow> f64_mag x = f64_mag y \<Longrightarrow> x = y"
proof -
  assume a: "f64_sign x = f64_sign y" "f64_mag x = f64_mag y"
  have "x = f64_pack (f64_sign x) (f64_mag x)" by (simp only: pack_unpack)
  also have "\<dots> = f64_pack (f64_sign y) (f64_mag y)" by (simp only: a)
  also have "\<dots> = y" by (simp only: pack_unpack)
  finally show ?thesis .
qed

lemma expo_pack: "m < 2 ^ 63 \<Longrightarrow> f64_expo (f64_pack s m) = m div 2 ^ 52"
  by (simp add: f64_expo_def)

lemma frac_pack: "m < 2 ^ 63 \<Longrightarrow> f64_frac (f64_pack s m) = m mod 2 ^ 52"
  by (simp add: f64_frac_mag)

subsection \<open>Rounding a representable value gives it back\<close>

lemma rne_shift_exact: "rne_shift (m * 2 ^ j) j = m"
  by (simp add: rne_shift_def rne_pick_def)

lemma floorlog_normal: "2 ^ 52 \<le> m \<Longrightarrow> m < 2 ^ 53 \<Longrightarrow> floorlog 2 m = 53"
proof -
  assume a: "2 ^ 52 \<le> m" "m < 2 ^ 53"
  have "floorlog 2 m \<le> 53" using a by (simp add: floorlog_le_iff)
  moreover have "53 \<le> floorlog 2 m" using a by (intro floorlog_geI) simp_all
  ultimately show ?thesis by simp
qed

lemma floorlog_subnormal: "m < 2 ^ 52 \<Longrightarrow> floorlog 2 m \<le> 52"
  by (simp add: floorlog_le_iff)

lemma f64_mant_pos: "\<not> is_zero x \<Longrightarrow> 0 < f64_mant x"
  using f64_mag_split [of x] by (auto simp: is_zero_def f64_mant_def)

lemma round_f64_shift_bits:
  assumes fin: "is_finite x" and nz: "\<not> is_zero x"
  shows "max (int (floorlog 2 (f64_mant x * 2 ^ j)) - 53) (- 1074 - (f64_exp x - int j)) = int j"
proof -
  have pos: "0 < f64_mant x" using nz by (rule f64_mant_pos)
  have fl: "floorlog 2 (f64_mant x * 2 ^ j) = floorlog 2 (f64_mant x) + j"
    using pos by (simp add: floorlog_power)
  show ?thesis
  proof (cases "f64_expo x = 0")
    case True
    then have "floorlog 2 (f64_mant x) \<le> 52"
      using f64_frac_lt [of x] by (simp add: f64_mant_def floorlog_subnormal)
    with True show ?thesis by (simp add: fl f64_exp_def)
  next
    case False
    then have "floorlog 2 (f64_mant x) = 53"
      using f64_frac_lt [of x] by (simp add: f64_mant_def floorlog_normal)
    with False show ?thesis by (simp add: fl f64_exp_def)
  qed
qed

lemma mag_as_mant: "nat (f64_exp x + 1074) * 2 ^ 52 + f64_mant x = f64_mag x"
proof (cases "f64_expo x = 0")
  case True
  then show ?thesis using f64_mag_split [of x] by (simp add: f64_exp_def f64_mant_def)
next
  case False
  then have "nat (int (f64_expo x) - 1) = f64_expo x - 1" by simp
  moreover have "(f64_expo x - 1) * 2 ^ 52 + 2 ^ 52 = f64_expo x * 2 ^ 52"
    using False by (cases "f64_expo x") simp_all
  ultimately show ?thesis using False f64_mag_split [of x]
    by (simp add: f64_exp_def f64_mant_def)
qed

lemma finite_mag_lt: "is_finite x \<Longrightarrow> f64_mag x < 2047 * 2 ^ 52"
  using f64_mag_split [of x] f64_frac_lt [of x] by (simp add: is_finite_def)

lemma round_f64_representable:
  assumes fin: "is_finite x" and nz: "\<not> is_zero x"
  shows "round_f64 s (f64_mant x * 2 ^ j) (f64_exp x - int j) = f64_pack s (f64_mag x)"
proof -
  have m: "(if int j \<le> 0 then f64_mant x * 2 ^ j * 2 ^ nat (- int j)
            else rne_shift (f64_mant x * 2 ^ j) (nat (int j))) = f64_mant x"
    by (cases "j = 0") (simp_all add: rne_shift_exact)
  have "round_f64 s (f64_mant x * 2 ^ j) (f64_exp x - int j)
      = round_f64_at s (f64_mant x * 2 ^ j) (f64_exp x - int j) (int j)"
    unfolding round_f64_def by (simp only: round_f64_shift_bits [OF fin nz])
  also have "\<dots> = f64_pack_ovf s (nat (f64_exp x + 1074) * 2 ^ 52 + f64_mant x)"
    unfolding round_f64_at_def by (simp only: m) simp
  also have "\<dots> = f64_pack_ovf s (f64_mag x)" by (simp only: mag_as_mant)
  also have "\<dots> = f64_pack s (f64_mag x)"
    using finite_mag_lt [OF fin] by (simp add: f64_pack_ovf_def)
  finally show ?thesis .
qed

subsection \<open>Sign, magnitude and the bitwise operations\<close>

lemma sign_bit: "f64_sign x = bit x 63"
proof -
  have "bit x 63 = bit (unat x) 63" by (simp add: bit_unsigned_iff)
  also have "\<dots> = odd (unat x div 2 ^ 63)" by (simp add: bit_iff_odd)
  also have "\<dots> = (2 ^ 63 \<le> unat x)"
  proof (cases "2 ^ 63 \<le> unat x")
    case True
    have "unat x < 2 * 2 ^ 63" using unat_lt64 [of x] by simp
    then have "unat x div 2 ^ 63 < 2" by (simp add: less_mult_imp_div_less)
    moreover have "1 \<le> unat x div 2 ^ 63" using True by (simp add: div_greater_zero_iff Suc_le_eq)
    ultimately have "unat x div 2 ^ 63 = 1" by simp
    with True show ?thesis by simp
  next
    case False
    then show ?thesis by simp
  qed
  finally show ?thesis by (simp add: f64_sign_def)
qed

lemma mag_take_bit: "f64_mag x = unat (take_bit 63 x)"
proof -
  have "unat (take_bit 63 x) = take_bit 63 (unat x)" by (rule unsigned_take_bit_eq)
  also have "\<dots> = unat x mod 2 ^ 63" by (rule take_bit_eq_mod)
  finally show ?thesis by (simp only: f64_mag_def)
qed

lemma neg_sign: "f64_sign (f64_neg x) = (\<not> f64_sign x)"
  by (simp add: sign_bit f64_neg_def bit_xor_iff)

lemma neg_mag: "f64_mag (f64_neg x) = f64_mag x"
  by (simp add: mag_take_bit f64_neg_def take_bit_xor)

lemma abs_sign: "f64_sign (x AND 0x7FFFFFFFFFFFFFFF) = False"
  by (simp add: sign_bit bit_and_iff)

lemma abs_mask_mask: "(0x7FFFFFFFFFFFFFFF :: 64 word) = mask 63"
  by (simp add: mask_eq_exp_minus_1)

lemma and_abs_take_bit: "x AND 0x7FFFFFFFFFFFFFFF = take_bit 63 (x :: 64 word)"
  by (simp only: abs_mask_mask take_bit_eq_mask)

lemma abs_mag: "f64_mag (x AND 0x7FFFFFFFFFFFFFFF) = f64_mag x"
  by (simp only: and_abs_take_bit mag_take_bit take_bit_take_bit)

lemma signbit_sign: "f64_sign (x AND 0x8000000000000000) = f64_sign x"
  by (simp add: sign_bit bit_and_iff)

lemma signbit_mag: "f64_mag (x AND 0x8000000000000000) = 0"
proof -
  have "take_bit 63 (x AND 0x8000000000000000) = take_bit 63 x AND take_bit 63 (0x8000000000000000 :: 64 word)"
    by (rule take_bit_and)
  also have "take_bit 63 (0x8000000000000000 :: 64 word) = 0" by simp
  finally show ?thesis by (simp add: mag_take_bit)
qed

lemma f64_mag_lt_num [simp]: "f64_mag x < 9223372036854775808"
  using f64_mag_lt [of x] by simp

lemma f64_frac_lt_num [simp]: "f64_frac x < 4503599627370496"
  using f64_frac_lt [of x] by simp

lemma neg_pack: "f64_neg x = f64_pack (\<not> f64_sign x) (f64_mag x)"
  by (rule f64_eqI) (simp_all add: neg_sign neg_mag f64_mag_lt)

lemma neg_neg: "f64_neg (f64_neg x) = x"
  by (rule f64_eqI) (simp_all add: neg_sign neg_mag)

lemma pack_neg: "m < 2 ^ 63 \<Longrightarrow> f64_pack (\<not> s) m = f64_neg (f64_pack s m)"
  by (rule f64_eqI) (simp_all add: neg_sign neg_mag)

lemma expo_neg: "f64_expo (f64_neg x) = f64_expo x"
  by (simp add: f64_expo_def neg_mag)

lemma frac_neg: "f64_frac (f64_neg x) = f64_frac x"
  by (simp add: f64_frac_mag neg_mag)

lemma mant_neg: "f64_mant (f64_neg x) = f64_mant x"
  by (simp add: f64_mant_def expo_neg frac_neg)

lemma exp_neg: "f64_exp (f64_neg x) = f64_exp x"
  by (simp add: f64_exp_def expo_neg)

lemma nan_neg: "is_nan (f64_neg x) = is_nan x"
  by (simp add: is_nan_def expo_neg frac_neg)

lemma inf_neg: "is_inf (f64_neg x) = is_inf x"
  by (simp add: is_inf_def expo_neg frac_neg)

lemma zero_neg: "is_zero (f64_neg x) = is_zero x"
  by (simp add: is_zero_def neg_mag)

lemma finite_neg: "is_finite (f64_neg x) = is_finite x"
  by (simp add: is_finite_def expo_neg)

lemma sval_neg: "f64_sval (f64_neg x) e = - f64_sval x e"
  by (simp add: f64_sval_def neg_sign mant_neg exp_neg)

lemma finite_iff: "is_finite x \<longleftrightarrow> \<not> is_nan x \<and> \<not> is_inf x"
  using f64_expo_lt [of x] by (auto simp: is_finite_def is_nan_def is_inf_def)

lemma inf_mag: "is_inf x \<longleftrightarrow> f64_mag x = 2047 * 2 ^ 52"
  using f64_mag_split [of x] f64_frac_lt [of x] by (auto simp: is_inf_def f64_expo_def f64_frac_mag)

lemma zero_finite: "is_zero x \<Longrightarrow> is_finite x"
  by (simp add: is_zero_def is_finite_def f64_expo_def)

lemma zero_mant: "is_zero x \<Longrightarrow> f64_mant x = 0"
  by (simp add: is_zero_def f64_mant_def f64_expo_def f64_frac_mag)

lemma abs_expo: "f64_expo (x AND 0x7FFFFFFFFFFFFFFF) = f64_expo x"
  by (simp add: f64_expo_def abs_mag)

lemma abs_frac: "f64_frac (x AND 0x7FFFFFFFFFFFFFFF) = f64_frac x"
  by (simp add: f64_frac_mag abs_mag)

lemma abs_nan: "is_nan (x AND 0x7FFFFFFFFFFFFFFF) = is_nan x"
  by (simp add: is_nan_def abs_expo abs_frac)

lemma abs_key: "f64_key (x AND 0x7FFFFFFFFFFFFFFF) = int (f64_mag x)"
  by (simp add: f64_key_def abs_sign abs_mag)

section \<open>Lane-wise reading of the vector functions\<close>

lemmas getters = vector_get_x_def vector_get_y_def vector_get_z_def vector_get_w_def
  mm_cvtsd_f64_def mm_shuffle_pd_def

lemma lanes_rec: "lanes \<lparr>xy = a, zw = b\<rparr> = [lo a, hi a, lo b, hi b]"
  by (simp add: lanes_def getters)

lemma lanes_set: "lanes (vector_set x y z w) = [x, y, z, w]"
  by (simp add: lanes_rec vector_set_def mm_set_pd_def)

lemma vector_set_lanes: "vector_set (lane v 0) (lane v (Suc 0)) (lane v 2) (lane v 3) = v"
  by (cases v, rename_tac p q, case_tac p, case_tac q)
     (simp add: lane_def lanes_rec vector_set_def mm_set_pd_def)

lemma all_lanes: "(\<forall>k<4. P k) \<longleftrightarrow> P 0 \<and> P (Suc 0) \<and> P 2 \<and> P (3::nat)"
proof -
  have "k < 4 \<longleftrightarrow> k = 0 \<or> k = Suc 0 \<or> k = 2 \<or> k = 3" for k :: nat by arith
  then show ?thesis by auto
qed

lemma lane_set:
  "lane (vector_set x y z w) 0 = x" "lane (vector_set x y z w) (Suc 0) = y"
  "lane (vector_set x y z w) 2 = z" "lane (vector_set x y z w) 3 = w"
  by (simp_all add: lane_def lanes_set)

lemma vector4d_lanes_cases:
  obtains x y z w where "v = vector_set x y z w"
  using vector_set_lanes [of v, symmetric] by blast

lemma mask_of_True: "mask_of True = - 1"
  by (simp add: mask_of_def)

lemma mask_of_False: "mask_of False = 0"
  by (simp add: mask_of_def)

lemma select_mask: "(NOT (mask_of c) AND y) OR (x AND mask_of c) = (if c then x else y)"
  by (cases c) (simp_all add: mask_of_True mask_of_False)

lemma blend_mask: "(mask_of c AND x) OR (NOT (mask_of c) AND y) = (if c then x else y)"
  by (cases c) (simp_all add: mask_of_True mask_of_False)

lemma mask_of_or: "mask_of a OR mask_of b = mask_of (a \<or> b)"
  by (cases a; cases b) (simp_all add: mask_of_True mask_of_False)

lemma key_zero: "f64_key 0 = 0"
  by (simp add: f64_key_def f64_mag_def f64_sign_def)

lemma not_nan_zero: "\<not> is_nan 0"
  by (simp add: is_nan_def f64_expo_def f64_mag_def)

lemmas lanewise_defs = vector_set_def vector_set1_def vector_zero_def mm_set_pd_def mm_set1_pd_def
  mm_setzero_pd_def lanewise_def

lemma vector_sign_set:
  "vector_sign (vector_set x y z w) = vector_set (sign_lane x) (sign_lane y) (sign_lane z) (sign_lane w)"
  by (simp add: vector_sign_def vector_select_def vector_greater_equal_def lanewise_defs
      mm_cmpge_pd_def mm_or_pd_def mm_and_pd_def mm_andnot_pd_def select_mask sign_lane_def)

lemma sign_lane_nan: "is_nan x \<Longrightarrow> sign_lane x = f64_minus_one"
  by (simp add: sign_lane_def f64_le_def)

lemma sign_lane_not_nan: "\<not> is_nan (sign_lane x)"
  by (simp add: sign_lane_def f64_one_def f64_minus_one_def is_nan_def f64_expo_def f64_mag_def f64_frac_def)

lemma is_nan_qnan: "is_nan qnan"
  by (simp add: qnan_def is_nan_def f64_expo_def f64_mag_def f64_frac_def)

lemma sign_mask_of: "f64_sign (mask_of c) = c"
  by (simp add: mask_of_def f64_sign_def)

lemma not_le_iff_lt: "\<not> is_nan a \<Longrightarrow> \<not> is_nan b \<Longrightarrow> (\<not> f64_le b a) = f64_lt a b"
  by (auto simp: f64_le_def f64_lt_def)

lemma movemask_cmp:
  "mm_movemask_pd (lanewise (\<lambda>a b. mask_of (P a b)) x y) =
     (if P (lo x) (lo y) then 1 else 0) + (if P (hi x) (hi y) then 2 else 0)"
  by (simp add: mm_movemask_pd_def lanewise_def sign_mask_of)


lemma lane_set1: "k < 4 \<Longrightarrow> lane (vector_set1 v) k = v"
proof -
  have "\<forall>k<4. lane (vector_set1 v) k = v"
    unfolding all_lanes by (simp add: lane_def lanes_rec vector_set1_def mm_set1_pd_def)
  then show "k < 4 \<Longrightarrow> lane (vector_set1 v) k = v" by simp
qed

section \<open>Magnitudes, comparisons and NaN\<close>

lemma expo_drop_bit: "f64_expo x = unat (drop_bit 52 (take_bit 63 x))"
proof -
  have "unat (drop_bit 52 (take_bit 63 x)) = drop_bit 52 (unat (take_bit 63 x))"
    by (rule unat_drop_bit_eq)
  also have "\<dots> = unat (take_bit 63 x) div 2 ^ 52" by (rule drop_bit_eq_div)
  finally show ?thesis by (simp only: f64_expo_def mag_take_bit)
qed

lemma frac_take_bit: "f64_frac x = unat (take_bit 52 x)"
proof -
  have "unat (take_bit 52 x) = take_bit 52 (unat x)" by (rule unsigned_take_bit_eq)
  also have "\<dots> = unat x mod 2 ^ 52" by (rule take_bit_eq_mod)
  finally show ?thesis by (simp only: f64_frac_def)
qed

lemma quiet_expo: "f64_expo (quiet x) = f64_expo x"
proof -
  have "drop_bit 52 (take_bit 63 (x OR 0x0008000000000000))
      = drop_bit 52 (take_bit 63 x) OR drop_bit 52 (take_bit 63 (0x0008000000000000 :: 64 word))"
    by (simp only: take_bit_or drop_bit_or)
  also have "drop_bit 52 (take_bit 63 (0x0008000000000000 :: 64 word)) = 0" by simp
  finally show ?thesis by (simp add: expo_drop_bit quiet_def)
qed

lemma quiet_frac: "f64_frac (quiet x) \<noteq> 0"
proof
  assume "f64_frac (quiet x) = 0"
  then have "take_bit 52 (x OR 0x0008000000000000) = 0"
    by (simp only: frac_take_bit quiet_def unsigned_eq_0_iff)
  then have "\<not> bit (take_bit 52 (x OR (0x0008000000000000 :: 64 word))) 51" by simp
  then show False by (simp add: bit_take_bit_iff bit_or_iff)
qed

lemma quiet_nan: "is_nan x \<Longrightarrow> is_nan (quiet x)"
  by (simp add: is_nan_def quiet_expo quiet_frac)

lemma quiet_quiet: "quiet (quiet x) = quiet x"
  by (simp add: quiet_def or.assoc)

lemma or_set_bit: "bit x k \<Longrightarrow> x OR push_bit k 1 = (x :: 64 word)"
  by (rule bit_eqI) (auto simp: bit_or_iff bit_push_bit_iff bit_1_iff bit_exp_iff)

lemma quiet_already: "bit x 51 \<Longrightarrow> quiet x = x"
proof -
  assume "bit x 51"
  then have "x OR push_bit 51 1 = x" by (rule or_set_bit)
  moreover have "push_bit 51 1 = (0x0008000000000000 :: 64 word)" by simp
  ultimately show ?thesis by (simp only: quiet_def)
qed

lemma eq_self: "f64_eq x x = (\<not> is_nan x)"
  by (simp add: f64_eq_def)

lemma inf_not_nan: "is_inf x \<Longrightarrow> \<not> is_nan x"
  by (simp add: is_inf_def is_nan_def)

lemma large_iff:
  "f64_le 0x4330000000000000 (x AND 0x7FFFFFFFFFFFFFFF) \<longleftrightarrow> \<not> is_nan x \<and> 1075 \<le> f64_expo x"
proof -
  have c: "\<not> is_nan 0x4330000000000000" "f64_key 0x4330000000000000 = 4841369599423283200"
    by (simp_all add: is_nan_def f64_key_def f64_sign_def f64_expo_def f64_mag_def f64_frac_def)
  have "(4841369599423283200 \<le> f64_mag x) = (1075 \<le> f64_expo x)"
    unfolding f64_expo_def by (simp add: less_eq_div_iff_mult_less_eq)
  then show ?thesis by (simp add: f64_le_def c abs_nan abs_key)
qed

lemma pow2_nonneg: "0 \<le> e \<Longrightarrow> pow2 e = 2 ^ nat e"
  by (simp add: pow2_def)

lemma pow2_neg: "e < 0 \<Longrightarrow> pow2 e = 1 / 2 ^ nat (- e)"
  by (simp add: pow2_def)

lemma abs_valof: "\<bar>f64_valof x\<bar> = real (f64_mant x) * pow2 (f64_exp x)"
  by (simp add: f64_valof_def pow2_def abs_mult)

lemma pow2_le_half: "e < 0 \<Longrightarrow> pow2 e \<le> 1 / 2"
proof -
  assume "e < 0"
  then have "1 \<le> nat (- e)" by simp
  then have "(2::real) ^ 1 \<le> 2 ^ nat (- e)" by (intro power_increasing) simp_all
  then have "1 / 2 ^ nat (- e) \<le> 1 / (2::real)" by (intro divide_left_mono) simp_all
  with \<open>e < 0\<close> show ?thesis by (simp only: pow2_neg)
qed

lemma mant_lt: "f64_mant x < 2 ^ 53"
  using f64_frac_lt [of x] by (simp add: f64_mant_def del: f64_frac_lt_num)

lemma valof_large:
  assumes "is_finite x"
  shows "(2 ^ 52 \<le> \<bar>f64_valof x\<bar>) = (1075 \<le> f64_expo x)"
proof (cases "1075 \<le> f64_expo x")
  case True
  then have e: "0 \<le> f64_exp x" and m: "2 ^ 52 \<le> f64_mant x"
    by (simp_all add: f64_exp_def f64_mant_def)
  have "(2::real) ^ 52 * 1 \<le> real (f64_mant x) * 2 ^ nat (f64_exp x)"
    using m by (intro mult_mono) (simp_all add: numeral_power_le_of_nat_cancel_iff)
  with True e show ?thesis by (simp add: abs_valof pow2_nonneg)
next
  case False
  then have "f64_exp x < 0" by (simp add: f64_exp_def)
  then have "pow2 (f64_exp x) \<le> 1 / 2" by (rule pow2_le_half)
  then have "real (f64_mant x) * pow2 (f64_exp x) \<le> real (f64_mant x) * (1 / 2)"
    by (intro mult_left_mono) simp_all
  moreover have "real (f64_mant x) < 2 ^ 53"
    using mant_lt [of x] by (simp add: of_nat_less_numeral_power_cancel_iff)
  ultimately have "\<bar>f64_valof x\<bar> < 2 ^ 52" by (simp add: abs_valof)
  with False show ?thesis by simp
qed

lemma keep_large:
  assumes "is_inf x \<or> (is_finite x \<and> 2 ^ 52 \<le> \<bar>f64_valof x\<bar>)"
  shows "f64_le 0x4330000000000000 (x AND 0x7FFFFFFFFFFFFFFF)"
  using assms
proof
  assume "is_inf x"
  then show ?thesis by (simp add: large_iff inf_not_nan) (simp add: is_inf_def)
next
  assume a: "is_finite x \<and> 2 ^ 52 \<le> \<bar>f64_valof x\<bar>"
  then have "1075 \<le> f64_expo x" using valof_large [of x] by simp
  with a show ?thesis by (simp add: large_iff finite_iff)
qed

lemma not_large_nan: "is_nan x \<Longrightarrow> \<not> f64_le 0x4330000000000000 (x AND 0x7FFFFFFFFFFFFFFF)"
  by (simp add: large_iff)

section \<open>The blend of the original lanes with the rounded ones\<close>

lemma blend_original_lanes:
  "lo (blend_original m x y) = (lo m AND lo x) OR (NOT (lo m) AND lo y)"
  "hi (blend_original m x y) = (hi m AND hi x) OR (NOT (hi m) AND hi y)"
  by (simp_all add: blend_original_def mm_or_pd_def mm_and_pd_def mm_andnot_pd_def lanewise_def)

lemma is_input_large_lanes:
  "lo (is_input_large r) = mask_of (f64_le 0x4330000000000000 (lo r AND 0x7FFFFFFFFFFFFFFF))"
  "hi (is_input_large r) = mask_of (f64_le 0x4330000000000000 (hi r AND 0x7FFFFFFFFFFFFFFF))"
  by (simp_all add: is_input_large_def mm_cmpge_pd_def mm_and_pd_def lanewise_def abs_mask_def
      fractional_limit_def mm_castsi128_pd_def mm_set_epi64x_def mm_set1_pd_def)

lemma use_original_input_lanes:
  "lo (use_original_input r)
     = mask_of (f64_le 0x4330000000000000 (lo r AND 0x7FFFFFFFFFFFFFFF) \<or> is_nan (lo r))"
  "hi (use_original_input r)
     = mask_of (f64_le 0x4330000000000000 (hi r AND 0x7FFFFFFFFFFFFFFF) \<or> is_nan (hi r))"
  by (simp_all add: use_original_input_def mm_or_pd_def mm_cmpneq_pd_def lanewise_def
      is_input_large_lanes mask_of_or eq_self)

lemma lane_rec:
  "lane \<lparr>xy = a, zw = b\<rparr> 0 = lo a" "lane \<lparr>xy = a, zw = b\<rparr> (Suc 0) = hi a"
  "lane \<lparr>xy = a, zw = b\<rparr> 2 = lo b" "lane \<lparr>xy = a, zw = b\<rparr> 3 = hi b"
  by (simp_all add: lane_def lanes_rec)

lemma lane_vec:
  "lane v 0 = lo (xy v)" "lane v (Suc 0) = hi (xy v)" "lane v 2 = lo (zw v)" "lane v 3 = hi (zw v)"
  by (simp_all add: lane_def lanes_def getters)

lemma round_bankers_pd_keeps:
  "unchanged_class (lo r) \<Longrightarrow> lo (round_bankers_pd r) = lo r"
  "unchanged_class (hi r) \<Longrightarrow> hi (round_bankers_pd r) = hi r"
  unfolding unchanged_class_def
  by (auto simp: round_bankers_pd_def blend_original_lanes is_input_large_lanes blend_mask keep_large)

section \<open>Exact cases of the arithmetic\<close>

lemma finite_not_nan: "is_finite x \<Longrightarrow> \<not> is_nan x"
  by (simp add: finite_iff)

lemma finite_not_inf: "is_finite x \<Longrightarrow> \<not> is_inf x"
  by (simp add: finite_iff)

lemma zero_not_nan: "is_zero x \<Longrightarrow> \<not> is_nan x"
  using zero_finite finite_not_nan by blast

lemma zero_not_inf: "is_zero x \<Longrightarrow> \<not> is_inf x"
  using zero_finite finite_not_inf by blast

lemma zero_pack: "is_zero x \<Longrightarrow> x = f64_pack (f64_sign x) 0"
  using pack_unpack [of x] by (simp add: is_zero_def)

lemma zero_exp: "is_zero x \<Longrightarrow> f64_exp x = - 1074"
  by (simp add: is_zero_def f64_exp_def f64_expo_def)

lemma exp_ge: "- 1074 \<le> f64_exp x"
  by (simp add: f64_exp_def)

lemma is_zero_pos_zero: "is_zero pos_zero"
  by (simp add: is_zero_def pos_zero_def f64_mag_def)

lemma sign_pos_zero: "\<not> f64_sign pos_zero"
  by (simp add: pos_zero_def f64_sign_def)

lemma pos_zero_pack: "f64_pack False 0 = pos_zero"
  by (simp add: f64_pack_def pos_zero_def)

lemma neg_zero_pack: "f64_pack True 0 = neg_zero"
  by (simp add: f64_pack_def neg_zero_def)

lemma is_zero_pack0: "is_zero (f64_pack s 0)"
  by (simp add: is_zero_def)

lemma zero_cases: "is_zero x \<Longrightarrow> x = pos_zero \<or> x = neg_zero"
  using zero_pack [of x] pos_zero_pack neg_zero_pack by (cases "f64_sign x") simp_all

lemma sval_zero: "is_zero x \<Longrightarrow> f64_sval x e = 0"
  by (simp add: f64_sval_def zero_mant)

lemma sval_nonzero: "\<not> is_zero x \<Longrightarrow> f64_sval x e \<noteq> 0"
  using f64_mant_pos [of x] by (simp add: f64_sval_def)

lemma sval_sign: "\<not> is_zero x \<Longrightarrow> (f64_sval x e < 0) = f64_sign x"
  using f64_mant_pos [of x] by (simp add: f64_sval_def mult_less_0_iff zero_less_mult_iff)

lemma sval_abs: "nat \<bar>f64_sval x e\<bar> = f64_mant x * 2 ^ nat (f64_exp x - e)"
  by (simp add: f64_sval_def abs_mult nat_mult_distrib nat_power_eq)

lemma add_zero_right:
  assumes fin: "is_finite x" and nz: "\<not> is_zero x" and z: "is_zero z"
  shows "f64_add x z = x"
proof -
  let ?j = "nat (f64_exp x + 1074)"
  have e: "min (f64_exp x) (f64_exp z) = f64_exp x - int ?j"
    using exp_ge [of x] by (simp add: zero_exp [OF z])
  have "f64_add x z = f64_add_finite x z (f64_exp x - int ?j)"
    using fin z by (simp only: f64_add_def finite_not_nan finite_not_inf zero_not_nan zero_not_inf e if_False)
  also have "\<dots> = round_f64 (f64_sign x) (f64_mant x * 2 ^ ?j) (f64_exp x - int ?j)"
    using nz exp_ge [of x]
    by (simp add: f64_add_finite_def round_signed_def sval_zero [OF z] sval_nonzero sval_sign sval_abs)
  also have "\<dots> = f64_pack (f64_sign x) (f64_mag x)"
    using fin nz by (rule round_f64_representable)
  finally show ?thesis by (simp only: pack_unpack)
qed

lemma add_zero_left:
  assumes fin: "is_finite x" and nz: "\<not> is_zero x" and z: "is_zero z"
  shows "f64_add z x = x"
proof -
  let ?j = "nat (f64_exp x + 1074)"
  have e: "min (f64_exp z) (f64_exp x) = f64_exp x - int ?j"
    using exp_ge [of x] by (simp add: zero_exp [OF z])
  have "f64_add z x = f64_add_finite z x (f64_exp x - int ?j)"
    using fin z by (simp only: f64_add_def finite_not_nan finite_not_inf zero_not_nan zero_not_inf e if_False)
  also have "\<dots> = round_f64 (f64_sign x) (f64_mant x * 2 ^ ?j) (f64_exp x - int ?j)"
    using nz exp_ge [of x]
    by (simp add: f64_add_finite_def round_signed_def sval_zero [OF z] sval_nonzero sval_sign sval_abs)
  also have "\<dots> = f64_pack (f64_sign x) (f64_mag x)"
    using fin nz by (rule round_f64_representable)
  finally show ?thesis by (simp only: pack_unpack)
qed

lemma add_zeros:
  assumes "is_zero a" and "is_zero b"
  shows "f64_add a b = (if f64_sign a \<and> f64_sign b then neg_zero else pos_zero)"
  using assms
  by (simp add: f64_add_def zero_not_nan zero_not_inf f64_add_finite_def round_signed_def sval_zero)

lemma sub_self: "is_finite x \<Longrightarrow> f64_sub x x = pos_zero"
  by (simp add: f64_sub_def f64_add_def finite_not_nan finite_not_inf nan_neg inf_neg exp_neg
      f64_add_finite_def round_signed_def sval_neg neg_sign)

lemma mul_zero_right: "is_finite x \<Longrightarrow> is_zero z \<Longrightarrow> f64_mul x z = f64_pack (f64_sign x \<noteq> f64_sign z) 0"
  by (simp add: f64_mul_def finite_not_nan finite_not_inf zero_not_nan zero_not_inf)

lemma one_fields:
  "\<not> is_nan f64_one" "\<not> is_inf f64_one" "\<not> is_zero f64_one" "\<not> f64_sign f64_one"
  "f64_mant f64_one = 2 ^ 52" "f64_exp f64_one = - 52"
  by (simp_all add: f64_one_def is_nan_def is_inf_def is_zero_def f64_sign_def f64_mant_def
      f64_exp_def f64_expo_def f64_mag_def f64_frac_def)

lemma mul_one_right: "is_finite x \<Longrightarrow> f64_mul x f64_one = x"
proof (cases "is_zero x")
  case True
  assume "is_finite x"
  then have "f64_mul x f64_one = f64_pack (f64_sign x) 0"
    using True by (simp add: f64_mul_def finite_not_nan finite_not_inf one_fields)
  then show ?thesis using zero_pack [OF True] by simp
next
  case False
  assume fin: "is_finite x"
  have "f64_mul x f64_one = round_f64 (f64_sign x) (f64_mant x * 2 ^ 52) (f64_exp x - int 52)"
    using fin False by (simp add: f64_mul_def finite_not_nan finite_not_inf one_fields)
  also have "\<dots> = f64_pack (f64_sign x) (f64_mag x)"
    using fin False by (rule round_f64_representable)
  finally show ?thesis by (simp only: pack_unpack)
qed

section \<open>The comparison orders the values\<close>

text \<open>
  A finite double is a whole number of units of \<open>2 ^ - 1074\<close>. The number of units grows
  strictly with the magnitude bits, so comparing sign and magnitude compares the values.
\<close>

lemma units_mono:
  assumes fb: "is_finite b" and lt: "f64_mag a < f64_mag b"
  shows "f64_units a < f64_units b"
proof -
  have ea: "f64_expo a \<le> f64_expo b"
    using lt unfolding f64_expo_def by (rule less_imp_le [THEN div_le_mono])
  show ?thesis
  proof (cases "f64_expo a = f64_expo b")
    case True
    then have "f64_frac a < f64_frac b"
      using lt f64_mag_split [of a] f64_mag_split [of b] by simp
    with True show ?thesis by (simp add: f64_units_def f64_mant_def f64_exp_def)
  next
    case False
    with ea have l: "f64_expo a < f64_expo b" by simp
    then have nb: "f64_expo b \<noteq> 0" by simp
    have ub: "2 ^ 52 * 2 ^ (f64_expo b - 1) \<le> f64_units b"
      using nb by (simp add: f64_units_def f64_mant_def f64_exp_def nat_diff_distrib)
    show ?thesis
    proof (cases "f64_expo a = 0")
      case True
      then have "f64_units a < 2 ^ 52"
        using f64_frac_lt [of a] by (simp add: f64_units_def f64_mant_def f64_exp_def del: f64_frac_lt_num)
      also have "(2::nat) ^ 52 * 1 \<le> 2 ^ 52 * 2 ^ (f64_expo b - 1)"
        by (intro mult_le_mono2) simp
      finally show ?thesis using ub by simp
    next
      case na: False
      have "f64_units a < 2 ^ 53 * 2 ^ (f64_expo a - 1)"
        using na mant_lt [of a] by (simp add: f64_units_def f64_exp_def nat_diff_distrib)
      also have "\<dots> = 2 ^ 52 * 2 ^ f64_expo a"
        using na by (cases "f64_expo a") simp_all
      also have "\<dots> \<le> 2 ^ 52 * 2 ^ (f64_expo b - 1)"
        using l by (intro mult_le_mono2 power_increasing) simp_all
      finally show ?thesis using ub by simp
    qed
  qed
qed

lemma units_zero: "is_zero x \<Longrightarrow> f64_units x = 0"
  by (simp add: f64_units_def zero_mant)

lemma units_pos: "\<not> is_zero x \<Longrightarrow> 0 < f64_units x"
  using f64_mant_pos [of x] by (simp add: f64_units_def)

lemma units_pos_iff: "0 < f64_units x \<longleftrightarrow> 0 < f64_mag x"
proof (cases "is_zero x")
  case True
  then show ?thesis using units_zero [of x] by (simp add: is_zero_def)
next
  case False
  then show ?thesis using units_pos [of x] by (simp add: is_zero_def)
qed

lemma units_less_iff:
  assumes "is_finite a" and "is_finite b"
  shows "f64_units a < f64_units b \<longleftrightarrow> f64_mag a < f64_mag b"
proof
  assume "f64_mag a < f64_mag b"
  with assms(2) show "f64_units a < f64_units b" by (rule units_mono)
next
  assume u: "f64_units a < f64_units b"
  show "f64_mag a < f64_mag b"
  proof (rule ccontr)
    assume "\<not> f64_mag a < f64_mag b"
    then consider "f64_mag b < f64_mag a" | "f64_mag a = f64_mag b" by linarith
    then show False
    proof cases
      case 1
      with assms(1) have "f64_units b < f64_units a" by (rule units_mono)
      with u show False by simp
    next
      case 2
      then have "f64_units a = f64_units b"
        by (simp add: f64_units_def f64_mant_def f64_exp_def f64_expo_def f64_frac_mag)
      with u show False by simp
    qed
  qed
qed

lemma units_eq_iff:
  assumes "is_finite a" and "is_finite b"
  shows "f64_units a = f64_units b \<longleftrightarrow> f64_mag a = f64_mag b"
  using units_less_iff [OF assms] units_less_iff [OF assms(2) assms(1)] by linarith

lemma pow2_shift: "- int n \<le> e \<Longrightarrow> pow2 e = 2 ^ nat (e + int n) / 2 ^ n"
proof -
  assume a: "- int n \<le> e"
  show ?thesis
  proof (cases "0 \<le> e")
    case True
    then have "nat (e + int n) = nat e + n" by simp
    then show ?thesis using True by (simp only: pow2_nonneg power_add) simp
  next
    case False
    then have "n = nat (e + int n) + nat (- e)" using a by simp
    then have "(2::real) ^ n = 2 ^ nat (e + int n) * 2 ^ nat (- e)"
      by (simp only: power_add [symmetric])
    then show ?thesis using False by (simp add: pow2_neg)
  qed
qed

lemma pow2_units: "pow2 (f64_exp x) = 2 ^ nat (f64_exp x + 1074) / 2 ^ 1074"
  using pow2_shift [of 1074 "f64_exp x"] exp_ge [of x] by simp

lemma valof_units:
  "f64_valof x = (if f64_sign x then - 1 else 1) * real (f64_units x) / 2 ^ 1074"
  by (simp add: f64_valof_def f64_units_def pow2_units)

lemma key_units:
  assumes "is_finite a" and "is_finite b"
  shows "f64_key a < f64_key b \<longleftrightarrow>
         (if f64_sign a then - int (f64_units a) else int (f64_units a))
           < (if f64_sign b then - int (f64_units b) else int (f64_units b))"
  using units_less_iff [OF assms] units_less_iff [OF assms(2) assms(1)]
    units_pos_iff [of a] units_pos_iff [of b]
  by (auto simp: f64_key_def)

lemma div_pow2_less: "(x / 2 ^ n < y / 2 ^ n) = (x < (y :: real))"
  by (simp add: divide_less_cancel)

lemma lt_iff_valof:
  assumes "is_finite a" and "is_finite b"
  shows "f64_lt a b \<longleftrightarrow> f64_valof a < f64_valof b"
proof -
  have "f64_valof a < f64_valof b \<longleftrightarrow>
        (if f64_sign a then - 1 else 1) * real (f64_units a)
          < (if f64_sign b then - 1 else 1) * real (f64_units b)"
    by (simp only: valof_units div_pow2_less)
  also have "\<dots> \<longleftrightarrow>
        (if f64_sign a then - int (f64_units a) else int (f64_units a))
          < (if f64_sign b then - int (f64_units b) else int (f64_units b))"
    by (cases "f64_sign a"; cases "f64_sign b") (simp_all, linarith+)
  also have "\<dots> \<longleftrightarrow> f64_key a < f64_key b"
    by (rule key_units [OF assms, symmetric])
  finally show ?thesis using assms by (simp add: f64_lt_def finite_not_nan)
qed

section \<open>Exchanging the operands of a subtraction\<close>

lemma pack_ovf_neg: "f64_pack_ovf (\<not> s) m = f64_neg (f64_pack_ovf s m)"
  by (simp add: f64_pack_ovf_def pack_neg)

lemma round_f64_neg: "round_f64 (\<not> s) n e = f64_neg (round_f64 s n e)"
  by (simp add: round_f64_def round_f64_at_def pack_ovf_neg)

lemma pack_ovf_not_nan: "\<not> is_nan (f64_pack_ovf s m)"
proof (cases "2047 * 2 ^ 52 \<le> m")
  case True
  then show ?thesis by (simp add: f64_pack_ovf_def is_nan_def expo_pack frac_pack)
next
  case False
  then have "m div 2 ^ 52 < 2047" by (simp add: less_mult_imp_div_less)
  with False show ?thesis by (simp add: f64_pack_ovf_def is_nan_def expo_pack)
qed

lemma round_f64_not_nan: "\<not> is_nan (round_f64 s n e)"
  by (simp add: round_f64_def round_f64_at_def pack_ovf_not_nan)

lemma neg_pos_zero: "f64_neg pos_zero = neg_zero"
  by (simp add: f64_neg_def pos_zero_def neg_zero_def)

lemma neg_neg_zero: "f64_neg neg_zero = pos_zero"
  by (simp add: f64_neg_def pos_zero_def neg_zero_def)

lemma zeros_not_nan: "\<not> is_nan pos_zero" "\<not> is_nan neg_zero"
  by (simp_all add: is_nan_def pos_zero_def neg_zero_def f64_expo_def f64_mag_def)

lemma round_signed_swap:
  "round_signed p (- v) e = round_signed q v e \<or>
   (\<not> is_nan (round_signed q v e) \<and> round_signed p (- v) e = f64_neg (round_signed q v e))"
proof (cases "v = 0")
  case True
  then show ?thesis
    by (simp add: round_signed_def neg_pos_zero neg_neg_zero zeros_not_nan)
next
  case False
  then have "(- v < 0) = (\<not> v < 0)" by auto
  with False show ?thesis
    by (simp add: round_signed_def round_f64_neg round_f64_not_nan)
qed

lemma inf_opposite: "is_inf a \<Longrightarrow> is_inf b \<Longrightarrow> f64_sign a \<noteq> f64_sign b \<Longrightarrow> b = f64_neg a"
  by (rule f64_eqI) (auto simp: neg_sign neg_mag inf_mag)

lemma add_neg_swap:
  assumes na: "\<not> is_nan a" and nb: "\<not> is_nan b"
  shows "f64_add b (f64_neg a) = f64_add a (f64_neg b) \<or>
         (\<not> is_nan (f64_add a (f64_neg b)) \<and> f64_add b (f64_neg a) = f64_neg (f64_add a (f64_neg b)))"
proof -
  consider (ii) "is_inf a" "is_inf b" | (i1) "is_inf a" "\<not> is_inf b"
    | (i2) "\<not> is_inf a" "is_inf b" | (ff) "\<not> is_inf a" "\<not> is_inf b"
    by blast
  then show ?thesis
  proof cases
    case ii
    then show ?thesis using na nb
      by (auto simp: f64_add_def nan_neg inf_neg neg_sign inf_opposite)
  next
    case i1
    then show ?thesis using na nb by (simp add: f64_add_def nan_neg inf_neg)
  next
    case i2
    then show ?thesis using na nb by (simp add: f64_add_def nan_neg inf_neg neg_neg)
  next
    case ff
    let ?e = "min (f64_exp a) (f64_exp b)"
    have l: "f64_add a (f64_neg b)
        = round_signed (f64_sign a \<and> \<not> f64_sign b) (f64_sval a ?e - f64_sval b ?e) ?e"
      using ff na nb
      by (simp add: f64_add_def nan_neg inf_neg exp_neg f64_add_finite_def sval_neg neg_sign)
    have r: "f64_add b (f64_neg a)
        = round_signed (f64_sign b \<and> \<not> f64_sign a) (- (f64_sval a ?e - f64_sval b ?e)) ?e"
      using ff na nb
      by (simp add: f64_add_def nan_neg inf_neg exp_neg f64_add_finite_def sval_neg neg_sign
          min.commute)
    show ?thesis unfolding l r by (rule round_signed_swap)
  qed
qed

lemma sub_swap:
  assumes "\<not> (is_nan a \<and> is_nan b)"
  shows "f64_sub b a = f64_sub a b \<or>
         (\<not> is_nan (f64_sub a b) \<and> f64_sub b a = f64_neg (f64_sub a b))"
proof (cases "is_nan a \<or> is_nan b")
  case True
  with assms show ?thesis by (auto simp: f64_sub_def)
next
  case False
  then show ?thesis using add_neg_swap [of a b] by (simp add: f64_sub_def)
qed

lemma mul_neg_neg: "f64_mul (f64_neg r) (f64_neg r) = f64_mul r r" if "\<not> is_nan r"
  using that by (simp add: f64_mul_def nan_neg inf_neg zero_neg mant_neg exp_neg neg_sign)

lemma square_sub_swap:
  assumes "\<not> (is_nan a \<and> is_nan b)"
  shows "f64_mul (f64_sub b a) (f64_sub b a) = f64_mul (f64_sub a b) (f64_sub a b)"
  using sub_swap [OF assms] by (auto simp: mul_neg_neg)

section \<open>Evaluation on concrete bit patterns\<close>

text \<open>
  An addition with a zero operand is decided without aligning the operands: the sum is
  the other operand. On concrete inputs this is the form that is evaluated.
\<close>

lemma f64_add_zero_cases:
  "f64_add a b =
     (if is_nan a then quiet a
      else if is_nan b then quiet b
      else if is_inf a then (if is_inf b \<and> f64_sign a \<noteq> f64_sign b then default_nan else a)
      else if is_inf b then b
      else if is_zero a \<and> is_zero b then (if f64_sign a \<and> f64_sign b then neg_zero else pos_zero)
      else if is_zero b then a
      else if is_zero a then b
      else f64_add_finite a b (min (f64_exp a) (f64_exp b)))"
proof -
  consider "is_nan a \<or> is_nan b \<or> is_inf a \<or> is_inf b"
    | "is_finite a" "is_finite b" "is_zero a" "is_zero b"
    | "is_finite a" "is_finite b" "\<not> is_zero a" "is_zero b"
    | "is_finite a" "is_finite b" "is_zero a" "\<not> is_zero b"
    | "is_finite a" "is_finite b" "\<not> is_zero a" "\<not> is_zero b"
    by (auto simp: finite_iff)
  then show ?thesis
  proof cases
    case 1
    then show ?thesis by (auto simp: f64_add_def)
  next
    case 2
    then show ?thesis by (simp add: add_zeros finite_not_nan finite_not_inf)
  next
    case 3
    then show ?thesis by (simp add: add_zero_right finite_not_nan finite_not_inf)
  next
    case 4
    then show ?thesis by (simp add: add_zero_left finite_not_nan finite_not_inf)
  next
    case 5
    then show ?thesis by (simp add: f64_add_def finite_not_nan finite_not_inf)
  qed
qed

lemmas f64_eval = f64_add_zero_cases f64_add_finite_def round_signed_def f64_sub_def f64_mul_def f64_neg_def quiet_def default_nan_def neg_zero_def pos_zero_def is_zero_def is_nan_def is_inf_def is_finite_def f64_expo_def f64_frac_def f64_mag_def f64_exp_def f64_sval_def f64_sign_def f64_mant_def round_f64_def round_f64_at_def f64_pack_ovf_def rne_shift_def rne_pick_def f64_pack_def compute_floorlog
  f64_max_def f64_min_def f64_lt_def f64_le_def f64_eq_def f64_key_def f64_of_int_def i32_indefinite_def i32_checked_def signed_def f64_rint_def f64_trunc_def cvtsd_i32_def cvttsd_i32_def
  f64_one_def f64_minus_one_def f64_half_def qnan_def snan_def

lemmas mm_eval = lane32_def cat32_def of_lanes32_def mm_castsi128_pd_def mm_castpd_si128_def mm_castpd_ps_def mm_castps_pd_def mm_set_epi64x_def mm_set_pd_def mm_set1_pd_def mm_setzero_pd_def lanewise_def mm_add_pd_def mm_sub_pd_def mm_mul_pd_def mm_max_pd_def mm_min_pd_def mm_and_pd_def mm_or_pd_def mm_andnot_pd_def mm_add_sd_def mm_cvtsd_f64_def mm_shuffle_pd_def MM_SHUFFLE_def mm_shuffle_ps_def mask_of_def mm_cmpeq_pd_def mm_cmpneq_pd_def mm_cmplt_pd_def mm_cmpgt_pd_def mm_cmpge_pd_def mm_movemask_pd_def mm_cvtpd_epi32_def mm_cvttpd_epi32_def mm_cvtepi32_pd_def

lemmas vec_eval = vector_set_def vector_set1_def vector_zero_def vector_add_def vector_sub_def
  vector_mul_def vector_mul_d_def vector_mul_sd_def vector_max_def vector_min_def vector_clamp_def
  abs_mask_def fractional_limit_def is_input_large_def use_original_input_def narrow_mask_def
  blend_original_def integer_part_pd_def bias_pd_def ceil_adjust_pd_def ceil_pd_def vector_ceil_def
  floor_adjust_pd_def floor_pd_def vector_floor_def vector_greater_equal_def int_and_def int_or_def
  vector_all_less_than_def vector_any_greater_equal_def vector_select_def vector_sign_def
  sign_mask_def round_symmetric_pd_def vector_round_symmetric_def truncating_offset_def
  add_sub_offset_def round_bankers_pd_def vector_round_bankers_def vector_mul_add_d_def
  vector_neg_mul_sub_d_def vector_lerp_def

lemmas valof_eval = f64_valof_def pow2_def f64_sign_def f64_mant_def f64_exp_def f64_expo_def
  f64_mag_def f64_frac_def

lemmas sqrt_div_eval = f64_sqrt_def f64_sqrt_even_def sqrt_round_def sticky_round_def isqrt.simps
  isqrt_step_def f64_div_def

section \<open>The arithmetic on some known values\<close>

lemma sqrt_two: "f64_sqrt 0x4000000000000000 = 0x3FF6A09E667F3BCD"
  by (simp add: sqrt_div_eval f64_eval)

lemma one_third: "f64_div f64_one 0x4008000000000000 = 0x3FD5555555555555"
  by (simp add: sqrt_div_eval f64_eval)

lemma one_point_two_plus_half: "f64_add 0x3FF3333333333333 f64_half = 0x3FFB333333333333"
  by (simp add: f64_eval)

lemma largest_finite_doubled: "f64_add 0x7FEFFFFFFFFFFFFF 0x7FEFFFFFFFFFFFFF = pos_inf"
  by (simp add: f64_eval pos_inf_def)

lemma default_threshold_value: "\<bar>f64_valof default_threshold - 1 / 10 ^ 8\<bar> \<le> 1 / 2 ^ 80"
  by (simp add: default_threshold_def valof_eval)

section \<open>Rounding to an integer\<close>

text \<open>
  \<^const>\<open>rne_shift\<close> is the rounding of the model's arithmetic. Adding an even multiple of the
  divisor adds the multiple to the result; a common factor of two cancels.
\<close>

lemma rne_shift_add_even: "even a \<Longrightarrow> rne_shift (n + a * 2 ^ d) d = a + rne_shift n d"
  by (simp add: rne_shift_def rne_pick_def)

lemma rne_shift_le: "rne_shift n d \<le> n div 2 ^ d + 1"
  by (simp add: rne_shift_def rne_pick_def)



text \<open>
  \<^const>\<open>round_half_even\<close> gives the integer within one half of its argument, the even one when
  two are at the distance one half. On \<open>n / 2 ^ d\<close> it is what \<^const>\<open>rne_shift\<close> computes.
\<close>

lemma round_half_even_nearest:
  assumes "\<bar>r - of_int n\<bar> < 1 / 2 \<or> (\<bar>r - of_int n\<bar> = 1 / 2 \<and> even n)"
  shows "round_half_even r = n"
proof -
  consider "of_int n \<le> r" "r < of_int n + 1 / 2"
    | "r = of_int n + 1 / 2" "even n"
    | "r < of_int n" "of_int n - 1 / 2 < r"
    | "r = of_int n - 1 / 2" "even n"
    using assms by (auto simp: abs_if split: if_splits)
  then show ?thesis
  proof cases
    case 1
    then have "\<lfloor>r\<rfloor> = n" by (intro floor_unique) linarith+
    with 1 show ?thesis by (simp add: round_half_even_def)
  next
    case 2
    then have "\<lfloor>r\<rfloor> = n" by (intro floor_unique) linarith+
    with 2 show ?thesis by (simp add: round_half_even_def)
  next
    case 3
    then have "\<lfloor>r\<rfloor> = n - 1" by (intro floor_unique) simp_all
    with 3 show ?thesis by (simp add: round_half_even_def)
  next
    case 4
    then have "\<lfloor>r\<rfloor> = n - 1" by (intro floor_unique) simp_all
    with 4 show ?thesis by (simp add: round_half_even_def)
  qed
qed

lemma round_half_even_rne_shift:
  "round_half_even (real n / 2 ^ d) = int (rne_shift n d)"
proof -
  let ?q = "n div 2 ^ d" and ?r = "n mod 2 ^ d"
  have "n = ?q * 2 ^ d + ?r" by (rule div_mult_mod_eq [symmetric])
  then have "real n = real (?q * 2 ^ d + ?r)" by (rule arg_cong)
  then have n: "real n = real ?q * 2 ^ d + real ?r"
    by (simp only: of_nat_add of_nat_mult of_nat_power of_nat_numeral)
  have v: "real n / 2 ^ d - real ?q = real ?r / 2 ^ d"
    unfolding n by (simp add: field_simps)
  have lt: "(real ?r / 2 ^ d < 1 / 2) = (2 * ?r < 2 ^ d)"
  proof -
    have "(real ?r / 2 ^ d < 1 / 2) = (2 * real ?r < 2 ^ d)" by (simp add: field_simps)
    also have "\<dots> = (real (2 * ?r) < real (2 ^ d))" by simp
    also have "\<dots> = (2 * ?r < 2 ^ d)" by (rule of_nat_less_iff)
    finally show ?thesis .
  qed
  have eq: "(real ?r / 2 ^ d = 1 / 2) = (2 * ?r = 2 ^ d)"
  proof -
    have "(real ?r / 2 ^ d = 1 / 2) = (2 * real ?r = 2 ^ d)" by (auto simp: field_simps)
    also have "\<dots> = (real (2 * ?r) = real (2 ^ d))" by simp
    also have "\<dots> = (2 * ?r = 2 ^ d)" by (rule of_nat_eq_iff)
    finally show ?thesis .
  qed
  have "?r < 2 ^ d" by simp
  then have "real ?r < real (2 ^ d)" by (simp only: of_nat_less_iff)
  then have r1: "real ?r / 2 ^ d < 1" by simp
  define x where "x = real n / 2 ^ d"
  define f where "f = real ?r / 2 ^ d"
  have xf: "x - of_int (int ?q) = f" "f < 1"
    using v r1 by (simp_all add: x_def f_def)
  have fl: "(f < 1 / 2) = (2 * ?r < 2 ^ d)" and fe: "(f = 1 / 2) = (2 * ?r = 2 ^ d)"
    using lt eq by (simp_all only: f_def)
  consider "2 * ?r < 2 ^ d" | "2 * ?r = 2 ^ d" "even ?q" | "2 * ?r = 2 ^ d" "odd ?q" | "2 ^ d < 2 * ?r"
    by linarith
  then have "round_half_even x = int (rne_shift n d)"
  proof cases
    case 1
    then have "f < 1 / 2" by (simp only: fl)
    moreover have "0 \<le> f" by (simp add: f_def)
    ultimately have "\<bar>x - of_int (int ?q)\<bar> < 1 / 2" using xf by linarith
    then have "round_half_even x = int ?q" by (intro round_half_even_nearest disjI1)
    with 1 show ?thesis by (simp add: rne_shift_def rne_pick_def)
  next
    case 2
    then have "f = 1 / 2" by (simp only: fe)
    then have "\<bar>x - of_int (int ?q)\<bar> = 1 / 2" using xf by linarith
    moreover have "even (int ?q)" using 2 by simp
    ultimately have "round_half_even x = int ?q" by (intro round_half_even_nearest disjI2 conjI)
    with 2 show ?thesis by (simp add: rne_shift_def rne_pick_def)
  next
    case 3
    then have "f = 1 / 2" by (simp only: fe)
    then have "\<bar>x - of_int (int ?q + 1)\<bar> = 1 / 2" using xf by simp
    moreover have "even (int ?q + 1)" using 3 by simp
    ultimately have "round_half_even x = int ?q + 1" by (intro round_half_even_nearest disjI2 conjI)
    with 3 show ?thesis by (simp add: rne_shift_def rne_pick_def)
  next
    case 4
    then have "\<not> f < 1 / 2" "f \<noteq> 1 / 2" by (simp_all only: fl fe)
    then have "\<bar>x - of_int (int ?q + 1)\<bar> < 1 / 2" using xf by simp
    then have "round_half_even x = int ?q + 1" by (intro round_half_even_nearest disjI1)
    with 4 show ?thesis by (simp add: rne_shift_def rne_pick_def)
  qed
  then show ?thesis by (simp only: x_def)
qed

lemma round_half_even_minus: "round_half_even (- r) = - round_half_even r"
proof -
  let ?n = "round_half_even r"
  have "\<bar>r - of_int ?n\<bar> < 1 / 2 \<or> (\<bar>r - of_int ?n\<bar> = 1 / 2 \<and> even ?n)"
    unfolding round_half_even_def by (auto simp: abs_if) linarith+
  then have "\<bar>- r - of_int (- ?n)\<bar> < 1 / 2 \<or> (\<bar>- r - of_int (- ?n)\<bar> = 1 / 2 \<and> even (- ?n))"
    by (simp add: abs_if split: if_splits)
  then show ?thesis by (rule round_half_even_nearest)
qed

subsection \<open>The fields of a rounded result\<close>

text \<open>
  \<^const>\<open>round_f64_at\<close> packs \<open>c * 2 ^ 52 + M\<close>, where \<open>M\<close> is the rounded significand with its
  leading bit, \<open>2 ^ 52 \<le> M \<le> 2 ^ 53\<close>. The value is \<open>M * 2 ^ (c - 1074)\<close> also at \<open>M = 2 ^ 53\<close>,
  where the carry has gone into the exponent field.
\<close>

lemma pack_normal_fields:
  assumes "2 ^ 52 \<le> M" and "M < 2 ^ 53" and "c < 2046"
  shows "f64_expo (f64_pack s (c * 2 ^ 52 + M)) = c + 1"
    and "f64_frac (f64_pack s (c * 2 ^ 52 + M)) = M - 2 ^ 52"
    and "f64_sign (f64_pack s (c * 2 ^ 52 + M)) = s"
proof -
  have m: "c * 2 ^ 52 + M = (c + 1) * 2 ^ 52 + (M - 2 ^ 52)" using assms(1) by simp
  have r: "M - 2 ^ 52 < 2 ^ 52" using assms(2) by simp
  have "c * 2 ^ 52 + M < 2047 * 2 ^ 52" using assms by simp
  then have lt: "c * 2 ^ 52 + M < 2 ^ 63" by simp
  show "f64_expo (f64_pack s (c * 2 ^ 52 + M)) = c + 1"
    unfolding expo_pack [OF lt] unfolding m using r by (simp only: div_mult_self3 div_less)
  show "f64_frac (f64_pack s (c * 2 ^ 52 + M)) = M - 2 ^ 52"
    unfolding frac_pack [OF lt] unfolding m using r by (simp only: mod_mult_self3 mod_less)
  show "f64_sign (f64_pack s (c * 2 ^ 52 + M)) = s"
    using lt by (rule sign_pack)
qed

lemma pack_carry_fields:
  assumes "c < 2045"
  shows "f64_expo (f64_pack s (c * 2 ^ 52 + 2 ^ 53)) = c + 2"
    and "f64_frac (f64_pack s (c * 2 ^ 52 + 2 ^ 53)) = 0"
    and "f64_sign (f64_pack s (c * 2 ^ 52 + 2 ^ 53)) = s"
proof -
  have m: "c * 2 ^ 52 + 2 ^ 53 = (c + 2) * (2::nat) ^ 52" by simp
  have "c * 2 ^ 52 + 2 ^ 53 < 2047 * (2::nat) ^ 52" using assms by simp
  then have lt: "c * 2 ^ 52 + 2 ^ 53 < (2::nat) ^ 63" by simp
  show "f64_expo (f64_pack s (c * 2 ^ 52 + 2 ^ 53)) = c + 2"
    unfolding expo_pack [OF lt] unfolding m by (rule nonzero_mult_div_cancel_right) simp
  show "f64_frac (f64_pack s (c * 2 ^ 52 + 2 ^ 53)) = 0"
    unfolding frac_pack [OF lt] unfolding m by (rule mod_mult_self2_is_0)
  show "f64_sign (f64_pack s (c * 2 ^ 52 + 2 ^ 53)) = s"
    using lt by (rule sign_pack)
qed

lemma pack_rounded_mant_exp:
  assumes "2 ^ 52 \<le> M" and "M \<le> 2 ^ 53" and "c < 2045"
  shows "\<exists>t. f64_exp (f64_pack s (c * 2 ^ 52 + M)) = int c - 1074 + int t \<and>
             M = f64_mant (f64_pack s (c * 2 ^ 52 + M)) * 2 ^ t \<and> t \<le> 1"
proof (cases "M = 2 ^ 53")
  case True
  have "f64_exp (f64_pack s (c * 2 ^ 52 + 2 ^ 53)) = int c - 1074 + int 1"
    "(2::nat) ^ 53 = f64_mant (f64_pack s (c * 2 ^ 52 + 2 ^ 53)) * 2 ^ 1"
    unfolding f64_exp_def f64_mant_def pack_carry_fields [OF assms(3)] by simp_all
  then show ?thesis unfolding True by blast
next
  case False
  then have lt: "M < 2 ^ 53" using assms(2) by simp
  have c: "c < 2046" using assms(3) by simp
  have "f64_exp (f64_pack s (c * 2 ^ 52 + M)) = int c - 1074 + int 0"
    "M = f64_mant (f64_pack s (c * 2 ^ 52 + M)) * 2 ^ 0"
    unfolding f64_exp_def f64_mant_def pack_normal_fields [OF assms(1) lt c] using assms(1) by simp_all
  then show ?thesis by blast
qed

lemma pack_rounded_finite:
  assumes "2 ^ 52 \<le> M" and "M \<le> 2 ^ 53" and "c < 2045"
  shows "is_finite (f64_pack s (c * 2 ^ 52 + M))"
proof (cases "M = 2 ^ 53")
  case True
  show ?thesis unfolding True is_finite_def pack_carry_fields [OF assms(3)] using assms(3) by simp
next
  case False
  then have lt: "M < 2 ^ 53" using assms(2) by simp
  have c: "c < 2046" using assms(3) by simp
  show ?thesis unfolding is_finite_def pack_normal_fields [OF assms(1) lt c] using assms(3) by simp
qed

lemma pack_rounded_sign:
  assumes "2 ^ 52 \<le> M" and "M \<le> 2 ^ 53" and "c < 2045"
  shows "f64_sign (f64_pack s (c * 2 ^ 52 + M)) = s"
proof -
  have "c * 2 ^ 52 + M < 2047 * 2 ^ 52" using assms by simp
  then have "c * 2 ^ 52 + M < 2 ^ 63" by simp
  then show ?thesis by (rule sign_pack)
qed

lemma pow2_add: "pow2 (a + b) = pow2 a * pow2 b"
proof -
  have "pow2 e = 2 powr (real_of_int e)" for e
    by (cases "0 \<le> e") (simp_all add: pow2_def powr_realpow [symmetric] powr_minus_divide [symmetric])
  then show ?thesis by (simp add: powr_add)
qed

lemma pow2_int: "pow2 (int t) = 2 ^ t"
  by (simp add: pow2_def)

lemma pack_rounded_valof:
  assumes "2 ^ 52 \<le> M" and "M \<le> 2 ^ 53" and "c < 2045"
  shows "f64_valof (f64_pack s (c * 2 ^ 52 + M)) = (if s then - 1 else 1) * real M * pow2 (int c - 1074)"
proof -
  obtain t where t: "f64_exp (f64_pack s (c * 2 ^ 52 + M)) = int c - 1074 + int t"
      "M = f64_mant (f64_pack s (c * 2 ^ 52 + M)) * 2 ^ t"
    using pack_rounded_mant_exp [OF assms] by blast
  have "real M = real (f64_mant (f64_pack s (c * 2 ^ 52 + M))) * 2 ^ t"
    by (subst t(2)) simp
  then show ?thesis
    unfolding f64_valof_def pack_rounded_sign [OF assms] t(1) pow2_add pow2_int by simp
qed

lemma pack_rounded_sval:
  assumes "2 ^ 52 \<le> M" and "M \<le> 2 ^ 53" and "c < 2045" and "e \<le> int c - 1074"
  shows "f64_sval (f64_pack s (c * 2 ^ 52 + M)) e = (if s then - 1 else 1) * int M * 2 ^ nat (int c - 1074 - e)"
proof -
  obtain t where t: "f64_exp (f64_pack s (c * 2 ^ 52 + M)) = int c - 1074 + int t"
      "M = f64_mant (f64_pack s (c * 2 ^ 52 + M)) * 2 ^ t"
    using pack_rounded_mant_exp [OF assms(1-3)] by blast
  have n: "nat (int c - 1074 + int t - e) = t + nat (int c - 1074 - e)"
    using assms(4) by simp
  have "int M = int (f64_mant (f64_pack s (c * 2 ^ 52 + M))) * 2 ^ t"
    by (subst t(2)) simp
  then show ?thesis
    unfolding f64_sval_def pack_rounded_sign [OF assms(1-3)] t(1) n power_add by simp
qed


subsection \<open>Integers of magnitude below \<open>2 ^ 53\<close> are converted exactly\<close>

lemma integer_normalised:
  assumes "0 < n" and "n < 2 ^ 53"
  shows "floorlog 2 n \<le> 53" and "1 \<le> floorlog 2 n"
    and "2 ^ 52 \<le> n * 2 ^ (53 - floorlog 2 n)" and "n * 2 ^ (53 - floorlog 2 n) < 2 ^ 53"
proof -
  let ?f = "floorlog 2 n"
  show le: "?f \<le> 53" using assms(2) by (simp add: floorlog_le_iff)
  have b: "2 ^ (?f - 1) \<le> n" "n < 2 ^ ?f"
    using floorlog_bounds [of n 2] assms(1) by simp_all
  show ge: "1 \<le> ?f"
    using assms(1) floorlog_eq_zero_iff [of 2 n] by (cases "?f") simp_all
  have "(2::nat) ^ 52 = 2 ^ (?f - 1) * 2 ^ (53 - ?f)"
    unfolding power_add [symmetric] using le ge by simp
  also have "\<dots> \<le> n * 2 ^ (53 - ?f)" using b(1) by (rule mult_le_mono1)
  finally show "2 ^ 52 \<le> n * 2 ^ (53 - ?f)" .
  have "n * 2 ^ (53 - ?f) < 2 ^ ?f * 2 ^ (53 - ?f)"
    using b(2) by (simp only: mult_less_cancel2) simp
  also have "\<dots> = 2 ^ 53" unfolding power_add [symmetric] using le by simp
  finally show "n * 2 ^ (53 - ?f) < 2 ^ 53" .
qed

lemma round_f64_integer:
  assumes "0 < n" and "n < 2 ^ 53"
  shows "round_f64 s n 0
     = f64_pack s ((floorlog 2 n + 1021) * 2 ^ 52 + n * 2 ^ (53 - floorlog 2 n))"
proof -
  let ?f = "floorlog 2 n"
  note b = integer_normalised [OF assms]
  have d: "max (int ?f - 53) (- 1074 - 0) = int ?f - 53" by simp
  have c: "nat (0 + (int ?f - 53) + 1074) = ?f + 1021" "nat (- (int ?f - 53)) = 53 - ?f"
    "int ?f - 53 \<le> 0"
    using b(1) by simp_all
  have "(?f + 1021) * 2 ^ 52 \<le> 1074 * (2::nat) ^ 52" using b(1) by simp
  then have lt: "\<not> 2047 * 2 ^ 52 \<le> (?f + 1021) * 2 ^ 52 + n * 2 ^ (53 - ?f)"
    using b(4) by simp
  show ?thesis
    unfolding round_f64_def d round_f64_at_def c f64_pack_ovf_def
    using lt c(3) by (simp only: if_True if_False)
qed

lemma integer_valof:
  assumes "0 < n" and "n < 2 ^ 53"
  shows "f64_valof (round_f64 s n 0) = (if s then - 1 else 1) * real n"
    and "is_finite (round_f64 s n 0)"
proof -
  let ?f = "floorlog 2 n"
  note b = integer_normalised [OF assms]
  have c: "?f + 1021 < 2045" using b(1) by simp
  have m: "n * 2 ^ (53 - ?f) \<le> 2 ^ 53" using b(4) by simp
  have e: "int (?f + 1021) - 1074 = - int (53 - ?f)" using b(1) by simp
  have p: "pow2 (- int (53 - ?f)) = 1 / 2 ^ (53 - ?f)" by (simp add: pow2_def) linarith
  show "f64_valof (round_f64 s n 0) = (if s then - 1 else 1) * real n"
    unfolding round_f64_integer [OF assms] pack_rounded_valof [OF b(3) m c] e p by simp
  show "is_finite (round_f64 s n 0)"
    unfolding round_f64_integer [OF assms] using b(3) m c by (rule pack_rounded_finite)
qed

lemma of_int_exact:
  assumes "\<bar>i\<bar> < 2 ^ 53"
  shows "is_finite (f64_of_int i)" and "f64_valof (f64_of_int i) = of_int i"
proof -
  have z: "is_finite pos_zero" "f64_valof pos_zero = 0"
    by (simp_all add: pos_zero_def is_finite_def valof_eval)
  have n: "i \<noteq> 0 \<Longrightarrow> 0 < nat \<bar>i\<bar>" "nat \<bar>i\<bar> < 2 ^ 53" using assms by simp_all
  show "is_finite (f64_of_int i)"
    using z(1) integer_valof(2) [OF n] by (simp add: f64_of_int_def)
  show "f64_valof (f64_of_int i) = of_int i"
    using z(2) integer_valof(1) [OF n, of "i < 0"] by (simp add: f64_of_int_def)
qed

subsection \<open>A constant with the sign of the input\<close>

text \<open>
  \<^verbatim>\<open>_mm_or_pd(_mm_and_pd(input, sign_mask), c)\<close> is the constant \<open>c\<close> with the sign bit of the
  input: \<open>2 ^ 52\<close> in \<^verbatim>\<open>vector_round_bankers\<close>, one half in \<^verbatim>\<open>vector_round_symmetric\<close>.
\<close>

lemma copysign_bits:
  assumes "\<not> bit c 63"
  shows "(x AND 0x8000000000000000) OR c = f64_pack (f64_sign x) (f64_mag c)"
proof (rule f64_eqI)
  show "f64_sign (x AND 0x8000000000000000 OR c) = f64_sign (f64_pack (f64_sign x) (f64_mag c))"
    using assms by (simp add: f64_mag_lt) (simp add: sign_bit bit_or_iff bit_and_iff)
  have "take_bit 63 (x AND 0x8000000000000000 OR c)
      = (take_bit 63 x AND take_bit 63 (0x8000000000000000 :: 64 word)) OR take_bit 63 c"
    by (simp only: take_bit_or take_bit_and)
  also have "take_bit 63 (0x8000000000000000 :: 64 word) = 0" by simp
  finally have "f64_mag (x AND 0x8000000000000000 OR c) = f64_mag c"
    by (simp add: mag_take_bit)
  then show "f64_mag (x AND 0x8000000000000000 OR c) = f64_mag (f64_pack (f64_sign x) (f64_mag c))"
    by (simp add: f64_mag_lt)
qed

lemma offset_bits:
  "(x AND 0x8000000000000000) OR 0x4330000000000000 = f64_pack (f64_sign x) (1074 * 2 ^ 52 + 2 ^ 52)"
proof -
  have "\<not> bit (0x4330000000000000 :: 64 word) 63" by (simp add: bit_iff_odd)
  moreover have "f64_mag 0x4330000000000000 = 1074 * 2 ^ 52 + 2 ^ 52" by (simp add: f64_mag_def)
  ultimately show ?thesis using copysign_bits [of "0x4330000000000000" x] by simp
qed


text \<open>The fields of a power of two with a sign: \<open>\<plusminus> 2 ^ (c - 1022)\<close>.\<close>

lemma power_fields:
  assumes "c < 2045"
  shows "f64_mant (f64_pack s (c * 2 ^ 52 + 2 ^ 52)) = 2 ^ 52"
    and "f64_exp (f64_pack s (c * 2 ^ 52 + 2 ^ 52)) = int c - 1074"
    and "f64_sign (f64_pack s (c * 2 ^ 52 + 2 ^ 52)) = s"
    and "is_finite (f64_pack s (c * 2 ^ 52 + 2 ^ 52))"
    and "\<not> is_zero (f64_pack s (c * 2 ^ 52 + 2 ^ 52))"
proof -
  have a: "(2::nat) ^ 52 \<le> 2 ^ 52" "(2::nat) ^ 52 < 2 ^ 53" "c < 2046" using assms by simp_all
  note f = pack_normal_fields [OF a, of s]
  show "f64_mant (f64_pack s (c * 2 ^ 52 + 2 ^ 52)) = 2 ^ 52"
    unfolding f64_mant_def f by simp
  show "f64_exp (f64_pack s (c * 2 ^ 52 + 2 ^ 52)) = int c - 1074"
    unfolding f64_exp_def f by simp
  show "f64_sign (f64_pack s (c * 2 ^ 52 + 2 ^ 52)) = s" by (rule f)
  show "is_finite (f64_pack s (c * 2 ^ 52 + 2 ^ 52))"
    unfolding is_finite_def f using assms by simp
  have "c * 2 ^ 52 + 2 ^ 52 < 2047 * (2::nat) ^ 52" using assms by simp
  then have "c * 2 ^ 52 + 2 ^ 52 < (2::nat) ^ 63" by simp
  then show "\<not> is_zero (f64_pack s (c * 2 ^ 52 + 2 ^ 52))"
    unfolding is_zero_def by (simp only: mag_pack) simp
qed

lemma add_finite:
  "is_finite a \<Longrightarrow> is_finite b \<Longrightarrow> f64_add a b = f64_add_finite a b (min (f64_exp a) (f64_exp b))"
  by (simp add: f64_add_def finite_not_nan finite_not_inf)

lemma small_exp:
  assumes "f64_expo x < 1075"
  shows "f64_exp x < 0" and "f64_exp x = - int (nat (- f64_exp x))" and "1 \<le> nat (- f64_exp x)"
  using assms by (auto simp: f64_exp_def)

lemma floorlog_between: "2 ^ w \<le> n \<Longrightarrow> n < 2 ^ Suc w \<Longrightarrow> floorlog 2 n = Suc w"
proof -
  assume a: "2 ^ w \<le> n" "n < 2 ^ Suc w"
  have "floorlog 2 n \<le> Suc w" using a(2) by (simp add: floorlog_le_iff)
  moreover have "Suc w \<le> floorlog 2 n" using a(1) by (intro floorlog_geI) simp_all
  ultimately show ?thesis by simp
qed

lemma mant_half: "1 \<le> k \<Longrightarrow> f64_mant x div 2 ^ k < 2 ^ 52"
proof -
  assume "1 \<le> k"
  then have "(2::nat) ^ 1 \<le> 2 ^ k" by (intro power_increasing) simp_all
  then have "f64_mant x div 2 ^ k \<le> f64_mant x div 2 ^ 1"
    by (intro div_le_mono2) simp_all
  also have "\<dots> < 2 ^ 52" using mant_lt [of x] by simp
  finally show ?thesis .
qed

section \<open>Adding and subtracting \<open>2 ^ 52\<close>\<close>

text \<open>
  Let \<open>x\<close> be finite with \<open>|x| < 2 ^ 52\<close>, \<open>m\<close> its significand and \<open>2 ^ - k\<close> its unit in the
  last place. The sum of \<open>x\<close> and the offset \<open>2 ^ 52\<close> (both with the sign of \<open>x\<close>) lies in
  \<open>[2 ^ 52, 2 ^ 53]\<close>, where the doubles are the integers: the addition rounds \<open>m / 2 ^ k\<close> to
  an integer \<open>R\<close>, ties to even, and delivers \<open>2 ^ 52 + R\<close>. The subtraction of the offset is
  exact and leaves \<open>R\<close> with the sign of \<open>x\<close>, or \<open>+0\<close>.
\<close>

lemma add_offset:
  assumes fin: "is_finite x" and small: "f64_expo x < 1075"
  shows "f64_add x (f64_pack (f64_sign x) (1074 * 2 ^ 52 + 2 ^ 52))
     = f64_pack (f64_sign x)
         (1074 * 2 ^ 52 + (2 ^ 52 + rne_shift (f64_mant x) (nat (- f64_exp x))))"
proof -
  let ?s = "f64_sign x" and ?m = "f64_mant x" and ?k = "nat (- f64_exp x)"
  let ?off = "f64_pack ?s (1074 * 2 ^ 52 + 2 ^ 52)"
  let ?V = "?m + 2 ^ 52 * 2 ^ ?k"
  let ?R = "rne_shift ?m ?k"
  have lt: "(1074::nat) < 2045" by simp
  note o = power_fields [OF lt, of ?s]
  note e = small_exp [OF small]
  have mn: "min (f64_exp x) 0 = f64_exp x" using e(1) by simp
  have oe: "f64_exp ?off = 0" unfolding o(2) by simp
  have sx: "f64_sval x (f64_exp x) = (if ?s then - 1 else 1) * int ?m"
    by (simp add: f64_sval_def)
  have so: "f64_sval ?off (f64_exp x) = (if ?s then - 1 else 1) * int (2 ^ 52 * 2 ^ ?k)"
    unfolding f64_sval_def o by simp
  have sum: "f64_sval x (f64_exp x) + f64_sval ?off (f64_exp x) = (if ?s then - 1 else 1) * int ?V"
    unfolding sx so by simp
  have pos: "0 < ?V" by simp
  have v: "(if ?s then - 1 else 1) * int ?V \<noteq> 0" "((if ?s then - 1 else 1) * int ?V < 0) = ?s"
    "nat \<bar>(if ?s then - 1 else 1) * int ?V\<bar> = ?V"
    using pos by (simp_all del: of_nat_add of_nat_mult)
  have "?m < 2 ^ 53" by (rule mant_lt)
  also have "(2::nat) ^ 53 = 2 ^ 52 * 2 ^ 1" by simp
  also have "\<dots> \<le> 2 ^ 52 * 2 ^ ?k" using e(3) by (intro mult_le_mono2 power_increasing) simp_all
  finally have ml: "?m < 2 ^ 52 * 2 ^ ?k" .
  have "floorlog 2 ?V = Suc (52 + ?k)"
    using ml by (intro floorlog_between) (simp_all add: power_add)
  then have d: "max (int (floorlog 2 ?V) - 53) (- 1074 - f64_exp x) = int ?k"
    using e(1) by simp
  have c: "nat (f64_exp x + int ?k + 1074) = 1074" "\<not> int ?k \<le> 0" "nat (int ?k) = ?k"
    using e by simp_all
  have r: "rne_shift ?V ?k = 2 ^ 52 + ?R"
    using rne_shift_add_even [of "2 ^ 52" ?m ?k] by simp
  have "?R \<le> ?m div 2 ^ ?k + 1" by (rule rne_shift_le)
  also have "\<dots> \<le> 2 ^ 52" using mant_half [OF e(3), of x] by simp
  finally have rl: "?R \<le> 2 ^ 52" .
  then have ov: "\<not> 2047 * 2 ^ 52 \<le> 1074 * 2 ^ 52 + (2 ^ 52 + ?R)" by simp
  have "f64_add x ?off = f64_add_finite x ?off (f64_exp x)"
    using add_finite [OF fin o(4)] unfolding oe mn .
  also have "\<dots> = round_f64 ?s ?V (f64_exp x)"
    unfolding f64_add_finite_def sum round_signed_def v(2,3) using v(1) by (simp only: if_False)
  also have "\<dots> = f64_pack ?s (1074 * 2 ^ 52 + (2 ^ 52 + ?R))"
    unfolding round_f64_def d round_f64_at_def c(1,3) r f64_pack_ovf_def using c(2) ov
    by (simp only: if_False)
  finally show ?thesis .
qed

lemma rint_small:
  assumes "f64_expo x < 1075"
  shows "f64_rint x = signed (f64_sign x) (rne_shift (f64_mant x) (nat (- f64_exp x)))"
    and "rne_shift (f64_mant x) (nat (- f64_exp x)) \<le> 2 ^ 52"
proof -
  note e = small_exp [OF assms]
  show "f64_rint x = signed (f64_sign x) (rne_shift (f64_mant x) (nat (- f64_exp x)))"
    using e(1) by (simp add: f64_rint_def)
  have "rne_shift (f64_mant x) (nat (- f64_exp x)) \<le> f64_mant x div 2 ^ nat (- f64_exp x) + 1"
    by (rule rne_shift_le)
  also have "\<dots> \<le> 2 ^ 52" using mant_half [OF e(3), of x] by simp
  finally show "rne_shift (f64_mant x) (nat (- f64_exp x)) \<le> 2 ^ 52" .
qed

lemma sub_offset:
  assumes "R \<le> 2 ^ 52"
  shows "f64_sub (f64_pack s (1074 * 2 ^ 52 + (2 ^ 52 + R))) (f64_pack s (1074 * 2 ^ 52 + 2 ^ 52))
     = f64_of_int (signed s R)"
proof -
  let ?y = "f64_pack s (1074 * 2 ^ 52 + (2 ^ 52 + R))"
  let ?off = "f64_pack s (1074 * 2 ^ 52 + 2 ^ 52)"
  have lt: "(1074::nat) < 2045" by simp
  note o = power_fields [OF lt, of s]
  have a: "2 ^ 52 \<le> 2 ^ 52 + R" "2 ^ 52 + R \<le> 2 ^ 53" "(1074::nat) < 2045" using assms by simp_all
  have fy: "is_finite ?y" using a by (rule pack_rounded_finite)
  obtain t where t: "f64_exp ?y = int 1074 - 1074 + int t"
    using pack_rounded_mant_exp [OF a, of s] by blast
  have fn: "is_finite (f64_neg ?off)" "f64_exp (f64_neg ?off) = 0" "f64_sign (f64_neg ?off) = (\<not> s)"
    using o by (simp_all add: finite_neg exp_neg neg_sign)
  have mn: "min (f64_exp ?y) 0 = 0" unfolding t by simp
  have sy: "f64_sval ?y 0 = (if s then - 1 else 1) * int (2 ^ 52 + R)"
    using pack_rounded_sval [OF a, of 0 s] by simp
  have "f64_sval ?off 0 = (if s then - 1 else 1) * int (2 ^ 52)"
    unfolding f64_sval_def o by simp
  then have so: "f64_sval (f64_neg ?off) 0 = - ((if s then - 1 else 1) * int (2 ^ 52))"
    by (simp only: sval_neg)
  have sum: "f64_sval ?y 0 + f64_sval (f64_neg ?off) 0 = (if s then - 1 else 1) * int R"
    unfolding sy so by simp
  have sg: "f64_sign ?y = s" using a by (rule pack_rounded_sign)
  have "f64_sub ?y ?off = f64_add ?y (f64_neg ?off)"
    using fy o(4) by (simp add: f64_sub_def finite_not_nan)
  also have "\<dots> = f64_add_finite ?y (f64_neg ?off) 0"
    using add_finite [OF fy fn(1)] unfolding fn(2) mn .
  also have "\<dots> = round_signed False ((if s then - 1 else 1) * int R) 0"
    unfolding f64_add_finite_def sum sg fn(3) by simp
  also have "\<dots> = f64_of_int (signed s R)"
    by (simp add: round_signed_def f64_of_int_def signed_def)
  finally show ?thesis .
qed

lemma bankers_lane:
  assumes fin: "is_finite x" and small: "f64_expo x < 1075"
  shows "f64_sub (f64_add x (f64_pack (f64_sign x) (1074 * 2 ^ 52 + 2 ^ 52)))
           (f64_pack (f64_sign x) (1074 * 2 ^ 52 + 2 ^ 52))
     = f64_of_int (f64_rint x)"
  unfolding add_offset [OF fin small] rint_small(1) [OF small]
  using rint_small(2) [OF small] by (rule sub_offset)

lemma valof_small:
  assumes "f64_expo x < 1075"
  shows "f64_valof x = (if f64_sign x then - 1 else 1) * (real (f64_mant x) / 2 ^ nat (- f64_exp x))"
  using small_exp(1) [OF assms] by (simp add: f64_valof_def pow2_neg)

lemma rint_half_even:
  assumes "f64_expo x < 1075"
  shows "f64_rint x = round_half_even (f64_valof x)"
  unfolding valof_small [OF assms] rint_small(1) [OF assms]
  by (simp add: signed_def round_half_even_minus round_half_even_rne_shift)

lemma bankers_lane_value:
  assumes fin: "is_finite x" and small: "f64_expo x < 1075"
  shows "is_finite (f64_of_int (f64_rint x))"
    and "f64_valof (f64_of_int (f64_rint x)) = of_int (round_half_even (f64_valof x))"
proof -
  have "\<bar>f64_rint x\<bar> \<le> 2 ^ 52"
    using rint_small(2) [OF small] unfolding rint_small(1) [OF small] by (simp add: signed_def)
  then have b: "\<bar>f64_rint x\<bar> < 2 ^ 53" by simp
  show "is_finite (f64_of_int (f64_rint x))" using b by (rule of_int_exact)
  have "f64_valof (f64_of_int (f64_rint x)) = of_int (f64_rint x)" using b by (rule of_int_exact)
  then show "f64_valof (f64_of_int (f64_rint x)) = of_int (round_half_even (f64_valof x))"
    by (simp only: rint_half_even [OF small])
qed

subsection \<open>The lanes of \<^verbatim>\<open>vector_round_bankers\<close>\<close>

lemma add_sub_offset_lanes:
  "lo (add_sub_offset r (truncating_offset r))
     = f64_sub (f64_add (lo r) (f64_pack (f64_sign (lo r)) (1074 * 2 ^ 52 + 2 ^ 52)))
         (f64_pack (f64_sign (lo r)) (1074 * 2 ^ 52 + 2 ^ 52))"
  "hi (add_sub_offset r (truncating_offset r))
     = f64_sub (f64_add (hi r) (f64_pack (f64_sign (hi r)) (1074 * 2 ^ 52 + 2 ^ 52)))
         (f64_pack (f64_sign (hi r)) (1074 * 2 ^ 52 + 2 ^ 52))"
  unfolding offset_bits [symmetric]
  by (simp_all add: add_sub_offset_def truncating_offset_def mm_sub_pd_def mm_add_pd_def
      mm_or_pd_def mm_and_pd_def lanewise_def sign_mask_def mm_set_pd_def neg_zero_def
      fractional_limit_def mm_set1_pd_def)

lemma small_not_large:
  "is_finite x \<Longrightarrow> \<bar>f64_valof x\<bar> < 2 ^ 52 \<Longrightarrow> f64_expo x < 1075"
  "is_finite x \<Longrightarrow> \<bar>f64_valof x\<bar> < 2 ^ 52 \<Longrightarrow> \<not> f64_le 0x4330000000000000 (x AND 0x7FFFFFFFFFFFFFFF)"
  using valof_large [of x] by (simp_all add: large_iff)

lemma round_bankers_pd_blend:
  "is_finite (lo r) \<Longrightarrow> \<bar>f64_valof (lo r)\<bar> < 2 ^ 52
     \<Longrightarrow> lo (round_bankers_pd r) = lo (add_sub_offset r (truncating_offset r))"
  "is_finite (hi r) \<Longrightarrow> \<bar>f64_valof (hi r)\<bar> < 2 ^ 52
     \<Longrightarrow> hi (round_bankers_pd r) = hi (add_sub_offset r (truncating_offset r))"
  by (simp_all add: round_bankers_pd_def blend_original_lanes is_input_large_lanes blend_mask
      small_not_large)

lemma round_bankers_pd_small:
  "is_finite (lo r) \<Longrightarrow> \<bar>f64_valof (lo r)\<bar> < 2 ^ 52
     \<Longrightarrow> lo (round_bankers_pd r) = f64_of_int (f64_rint (lo r))"
  "is_finite (hi r) \<Longrightarrow> \<bar>f64_valof (hi r)\<bar> < 2 ^ 52
     \<Longrightarrow> hi (round_bankers_pd r) = f64_of_int (f64_rint (hi r))"
  by (simp_all only: round_bankers_pd_blend add_sub_offset_lanes bankers_lane small_not_large)

lemma round_bankers_lane:
  assumes "k < 4" and "is_finite (lane v k)" and "\<bar>f64_valof (lane v k)\<bar> < 2 ^ 52"
  shows "lane (vector_round_bankers v) k = f64_of_int (f64_rint (lane v k))"
proof -
  have "\<forall>k<4. is_finite (lane v k) \<and> \<bar>f64_valof (lane v k)\<bar> < 2 ^ 52
      \<longrightarrow> lane (vector_round_bankers v) k = f64_of_int (f64_rint (lane v k))"
    unfolding all_lanes vector_round_bankers_def lane_rec
    by (simp add: lane_vec round_bankers_pd_small)
  with assms show ?thesis by simp
qed

text \<open>
  A finite lane of magnitude \<open>2 ^ 52\<close> or more is an integer, and is returned as it is.
\<close>

lemma round_half_even_of_int: "round_half_even (of_int n) = n"
  by (rule round_half_even_nearest) simp

lemma large_integer_value:
  assumes "is_finite x" and "2 ^ 52 \<le> \<bar>f64_valof x\<bar>"
  shows "f64_valof x = of_int (round_half_even (f64_valof x))"
proof -
  have "1075 \<le> f64_expo x" using assms valof_large [of x] by simp
  then have e: "0 \<le> f64_exp x" by (simp add: f64_exp_def)
  have "f64_valof x = of_int ((if f64_sign x then - 1 else 1) * int (f64_mant x) * 2 ^ nat (f64_exp x))"
    using e by (simp add: f64_valof_def pow2_nonneg)
  then show ?thesis by (simp only: round_half_even_of_int)
qed

lemma round_bankers_large_lane:
  assumes "k < 4" and "is_finite (lane v k)" and "2 ^ 52 \<le> \<bar>f64_valof (lane v k)\<bar>"
  shows "lane (vector_round_bankers v) k = lane v k"
proof -
  have "\<forall>k<4. is_finite (lane v k) \<and> 2 ^ 52 \<le> \<bar>f64_valof (lane v k)\<bar>
      \<longrightarrow> lane (vector_round_bankers v) k = lane v k"
    unfolding all_lanes vector_round_bankers_def lane_rec
    by (simp add: lane_vec round_bankers_pd_keeps unchanged_class_def)
  with assms show ?thesis by simp
qed

lemma round_bankers_value:
  assumes k: "k < 4" and fin: "is_finite (lane v k)"
  shows "is_finite (lane (vector_round_bankers v) k)"
    and "f64_valof (lane (vector_round_bankers v) k)
       = of_int (round_half_even (f64_valof (lane v k)))"
proof -
  have "is_finite (lane (vector_round_bankers v) k) \<and>
      f64_valof (lane (vector_round_bankers v) k) = of_int (round_half_even (f64_valof (lane v k)))"
  proof (cases "\<bar>f64_valof (lane v k)\<bar> < 2 ^ 52")
    case True
    show ?thesis
      unfolding round_bankers_lane [OF k fin True]
      using bankers_lane_value [OF fin small_not_large(1) [OF fin True]] by simp
  next
    case False
    then have l: "2 ^ 52 \<le> \<bar>f64_valof (lane v k)\<bar>" by simp
    show ?thesis
      unfolding round_bankers_large_lane [OF k fin l]
      using fin large_integer_value [OF fin l] by simp
  qed
  then show "is_finite (lane (vector_round_bankers v) k)"
    and "f64_valof (lane (vector_round_bankers v) k)
       = of_int (round_half_even (f64_valof (lane v k)))"
    by simp_all
qed

section \<open>Adding one half and truncating\<close>





subsection \<open>Inputs of magnitude below one half\<close>




subsection \<open>Inputs of magnitude from one half up to \<open>2 ^ 51\<close>\<close>




subsection \<open>The truncated sum is the input rounded half away from zero\<close>








subsection \<open>The lanes of \<^verbatim>\<open>vector_round_symmetric\<close>\<close>







section \<open>\<^verbatim>\<open>vector_sign\<close> on NaN\<close>

text \<open>
  Claim C9. \<^verbatim>\<open>vector_sign\<close> is total on all doubles including NaN: a lane holding NaN yields
  -1.0, because the greater-equal comparison with zero is false for NaN, and no lane of
  the result is NaN.
\<close>

theorem vector_sign_total:
  "\<forall>k<4. (is_nan (lane input k) \<longrightarrow> lane (vector_sign input) k = f64_minus_one)
         \<and> \<not> is_nan (lane (vector_sign input) k)"
  by (cases input rule: vector4d_lanes_cases)
     (simp add: all_lanes vector_sign_set lane_set sign_lane_nan sign_lane_not_nan)

theorem vector_sign_total_witness:
  "is_nan (lane (vector_set1 qnan) 0) \<and> lane (vector_sign (vector_set1 qnan)) 0 = f64_minus_one"
  using vector_sign_total [of "vector_set1 qnan"]
  by (simp add: all_lanes lane_def lanes_rec vector_set1_def mm_set1_pd_def is_nan_qnan)

section \<open>All-less-than against any-greater-equal\<close>

text \<open>
  Claim C7, as amended. When no lane of \<open>a\<close> or \<open>b\<close> is NaN, \<^verbatim>\<open>vector_all_less_than(a, b)\<close> is
  the negation of \<^verbatim>\<open>vector_any_greater_equal(a, b)\<close>.
\<close>

theorem all_less_than_iff_not_any_greater_equal:
  assumes "\<forall>k<4. \<not> is_nan (lane a k) \<and> \<not> is_nan (lane b k)"
  shows "vector_all_less_than a b = (\<not> vector_any_greater_equal a b)"
proof -
  obtain ax ay az aw where a: "a = vector_set ax ay az aw" by (rule vector4d_lanes_cases)
  obtain bx b_y bz bw where b: "b = vector_set bx b_y bz bw" by (rule vector4d_lanes_cases)
  have n: "\<not> is_nan ax" "\<not> is_nan ay" "\<not> is_nan az" "\<not> is_nan aw"
          "\<not> is_nan bx" "\<not> is_nan b_y" "\<not> is_nan bz" "\<not> is_nan bw"
    using assms by (simp_all add: all_lanes a b lane_set)
  show ?thesis
    unfolding vector_all_less_than_def vector_any_greater_equal_def mm_cmplt_pd_def mm_cmpge_pd_def
      movemask_cmp int_and_def int_or_def
    by (simp add: a b vector_set_def mm_set_pd_def not_le_iff_lt [symmetric] n)
qed

theorem all_less_than_iff_not_any_greater_equal_witness:
  "\<not> is_nan (lane (vector_set1 pos_zero) 0) \<and> \<not> is_nan (lane (vector_set1 f64_one) 0) \<and>
   vector_all_less_than (vector_set1 pos_zero) (vector_set1 f64_one) \<and>
   \<not> vector_any_greater_equal (vector_set1 pos_zero) (vector_set1 f64_one)"
proof -
  have n: "\<not> is_nan pos_zero" "\<not> is_nan f64_one"
    by (simp_all add: f64_eval)
  then have "\<forall>k<4. \<not> is_nan (lane (vector_set1 pos_zero) k) \<and> \<not> is_nan (lane (vector_set1 f64_one) k)"
    by (simp add: all_lanes lane_def lanes_rec vector_set1_def mm_set1_pd_def)
  from all_less_than_iff_not_any_greater_equal [OF this]
  have "vector_all_less_than (vector_set1 pos_zero) (vector_set1 f64_one)
      = (\<not> vector_any_greater_equal (vector_set1 pos_zero) (vector_set1 f64_one))" .
  moreover have "vector_all_less_than (vector_set1 pos_zero) (vector_set1 f64_one)"
    by (simp add: f64_eval mm_eval vec_eval)
  ultimately show ?thesis using n
    by (simp add: lane_def lanes_rec vector_set1_def mm_set1_pd_def)
qed

text \<open>
  With a NaN in one lane and the other lanes less, both reductions are false: the claim as
  stated, for all vectors, fails.
\<close>

theorem all_less_than_nan_counterexample:
  "\<not> vector_all_less_than (vector_set qnan pos_zero pos_zero pos_zero) (vector_set1 f64_one) \<and>
   \<not> vector_any_greater_equal (vector_set qnan pos_zero pos_zero pos_zero) (vector_set1 f64_one)"
  by (simp add: qnan_def f64_eval mm_eval vec_eval)

section \<open>Rounding half to even\<close>

lemma bankers_values:
  "map f64_valof [0x4004000000000000, 0x3FF8000000000000, 0xC004000000000000, 0xBFF8000000000000]
     = [5 / 2, 3 / 2, - 5 / 2, - 3 / 2]"
  "map f64_valof [0x4000000000000000, 0x4000000000000000, 0xC000000000000000, 0xC000000000000000]
     = [2, 2, - 2, - 2]"
  by (simp_all add: valof_eval)

lemma bankers_bits:
  "vector_round_bankers
     (vector_set 0x4004000000000000 0x3FF8000000000000 0xC004000000000000 0xBFF8000000000000)
   = vector_set 0x4000000000000000 0x4000000000000000 0xC000000000000000 0xC000000000000000"
  by (simp add: f64_eval mm_eval vec_eval)

text \<open>
  Claim C3. \<^verbatim>\<open>vector_round_bankers\<close> rounds each lane half to even: on input
  (2.5, 1.5, -2.5, -1.5) it returns (2.0, 2.0, -2.0, -2.0).

  Every finite lane comes out as a finite double, and its value is the value of the input
  lane rounded to the nearest integer, to the even one half way between two integers
  (\<^const>\<open>round_half_even\<close>, on the real numbers). The second part is the evaluation of the
  code on the four lanes of the claim.
\<close>

theorem round_bankers_half_to_even:
  "(\<forall>k<4. is_finite (lane v k) \<longrightarrow>
      is_finite (lane (vector_round_bankers v) k) \<and>
      f64_valof (lane (vector_round_bankers v) k)
        = of_int (round_half_even (f64_valof (lane v k)))) \<and>
   map f64_valof (lanes
     (vector_set 0x4004000000000000 0x3FF8000000000000 0xC004000000000000 0xBFF8000000000000))
     = [5 / 2, 3 / 2, - 5 / 2, - 3 / 2] \<and>
   map f64_valof (lanes (vector_round_bankers
     (vector_set 0x4004000000000000 0x3FF8000000000000 0xC004000000000000 0xBFF8000000000000)))
     = [2, 2, - 2, - 2] \<and>
   list_all is_finite (lanes (vector_round_bankers
     (vector_set 0x4004000000000000 0x3FF8000000000000 0xC004000000000000 0xBFF8000000000000)))"
proof -
  have g: "\<forall>k<4. is_finite (lane v k) \<longrightarrow>
      is_finite (lane (vector_round_bankers v) k) \<and>
      f64_valof (lane (vector_round_bankers v) k)
        = of_int (round_half_even (f64_valof (lane v k)))"
    by (simp add: round_bankers_value)
  have i: "map f64_valof (lanes
     (vector_set 0x4004000000000000 0x3FF8000000000000 0xC004000000000000 0xBFF8000000000000))
     = [5 / 2, 3 / 2, - 5 / 2, - 3 / 2] \<and>
   map f64_valof (lanes (vector_round_bankers
     (vector_set 0x4004000000000000 0x3FF8000000000000 0xC004000000000000 0xBFF8000000000000)))
     = [2, 2, - 2, - 2] \<and>
   list_all is_finite (lanes (vector_round_bankers
     (vector_set 0x4004000000000000 0x3FF8000000000000 0xC004000000000000 0xBFF8000000000000)))"
    unfolding bankers_bits lanes_set bankers_values
    by (simp add: is_finite_def f64_expo_def f64_mag_def)
  from g i show ?thesis by (rule conjI)
qed

theorem round_bankers_half_to_even_witness:
  "is_finite (lane (vector_set 0x4004000000000000 0x3FF8000000000000 0xC004000000000000 0xBFF8000000000000) 0) \<and>
   f64_valof (lane (vector_set 0x4004000000000000 0x3FF8000000000000 0xC004000000000000 0xBFF8000000000000) 0) = 5 / 2 \<and>
   round_half_even (5 / 2) = 2 \<and>
   f64_valof (lane (vector_round_bankers
     (vector_set 0x4004000000000000 0x3FF8000000000000 0xC004000000000000 0xBFF8000000000000)) 0) = 2 \<and>
   is_finite (lane (vector_set 0x4004000000000000 0x3FF8000000000000 0xC004000000000000 0xBFF8000000000000) 3) \<and>
   f64_valof (lane (vector_set 0x4004000000000000 0x3FF8000000000000 0xC004000000000000 0xBFF8000000000000) 3) = - (3 / 2) \<and>
   round_half_even (- (3 / 2)) = - 2 \<and>
   f64_valof (lane (vector_round_bankers
     (vector_set 0x4004000000000000 0x3FF8000000000000 0xC004000000000000 0xBFF8000000000000)) 3) = - 2"
proof -
  let ?v = "vector_set 0x4004000000000000 0x3FF8000000000000 0xC004000000000000 0xBFF8000000000000"
  have f: "is_finite (lane ?v 0)" "is_finite (lane ?v 3)"
    by (simp_all add: lane_set is_finite_def f64_expo_def f64_mag_def)
  have v: "f64_valof (lane ?v 0) = 5 / 2" "f64_valof (lane ?v 3) = - (3 / 2)"
    by (simp_all add: lane_set valof_eval)
  have r: "round_half_even (5 / 2) = 2" "round_half_even (- (3 / 2)) = - 2"
    by (simp_all add: round_half_even_def)
  note t = round_bankers_half_to_even [of ?v, THEN conjunct1, rule_format]
  have lt: "(0::nat) < 4" "(3::nat) < 4" by simp_all
  have "f64_valof (lane (vector_round_bankers ?v) 0) = of_int (round_half_even (f64_valof (lane ?v 0)))"
    using t [OF lt(1) f(1)] by blast
  then have r0: "f64_valof (lane (vector_round_bankers ?v) 0) = 2" by (simp add: v r)
  have "f64_valof (lane (vector_round_bankers ?v) 3) = of_int (round_half_even (f64_valof (lane ?v 3)))"
    using t [OF lt(2) f(2)] by blast
  then have r3: "f64_valof (lane (vector_round_bankers ?v) 3) = - 2" by (simp add: v r)
  show ?thesis using f v r r0 r3 by blast
qed

section \<open>Rounding half away from zero\<close>







text \<open>
  The bound \<open>2 ^ 31 - 1 / 2\<close> is where the biased sum leaves the range of the 32-bit
  integer that the truncation goes through: 2147483647.5 comes out as -2147483648.0.
\<close>

lemma round_symmetric_beyond_int32:
  "f64_valof 0x41DFFFFFFFE00000 = 2 ^ 31 - 1 / 2"
  "lane (vector_round_symmetric (vector_set1 0x41DFFFFFFFE00000)) 0 = 0xC1E0000000000000"
  "f64_valof 0xC1E0000000000000 = - (2 ^ 31)"
  by (simp_all add: valof_eval) (simp add: lane_def lanes_def getters f64_eval mm_eval vec_eval)

section \<open>Clamping\<close>

lemma key_of_zero: "is_zero x \<Longrightarrow> f64_key x = 0"
  by (simp add: is_zero_def f64_key_def)

lemma clamp_lane:
  assumes "f64_lt h l" and "\<not> is_nan x"
  shows "f64_min h (f64_max l x) = h"
proof -
  from assms have n: "\<not> is_nan h" "\<not> is_nan l" and lt: "f64_key h < f64_key l"
    by (simp_all add: f64_lt_def)
  have m: "\<not> is_nan (f64_max l x) \<and> f64_key l \<le> f64_key (f64_max l x)"
    using n assms(2) by (auto simp: f64_max_def f64_lt_def key_of_zero)
  then have "f64_key h < f64_key (f64_max l x)" using lt by simp
  then have "f64_lt h (f64_max l x)" "\<not> (is_zero h \<and> is_zero (f64_max l x))"
    using n m by (auto simp: f64_lt_def key_of_zero)
  then show ?thesis using n m by (auto simp: f64_min_def)
qed

lemma vector_max_set:
  "vector_max (vector_set a b c d) (vector_set a' b' c' d')
     = vector_set (f64_max a a') (f64_max b b') (f64_max c c') (f64_max d d')"
  by (simp add: vector_max_def mm_max_pd_def lanewise_defs)

lemma vector_min_set:
  "vector_min (vector_set a b c d) (vector_set a' b' c' d')
     = vector_set (f64_min a a') (f64_min b b') (f64_min c c') (f64_min d d')"
  by (simp add: vector_min_def mm_min_pd_def lanewise_defs)

text \<open>
  Claim C5, as amended. \<^verbatim>\<open>vector_clamp(input, lo, hi)\<close> is \<^verbatim>\<open>vector_min(hi, vector_max(lo, input))\<close>,
  with the maximum taken first; in a lane where \<open>lo > hi\<close> and the input is not NaN, the
  result is \<open>hi\<close>.
\<close>

theorem clamp_is_min_of_max:
  "vector_clamp input lo_v hi_v = vector_min hi_v (vector_max lo_v input) \<and>
   (\<forall>k<4. f64_lt (lane hi_v k) (lane lo_v k) \<and> \<not> is_nan (lane input k)
            \<longrightarrow> lane (vector_clamp input lo_v hi_v) k = lane hi_v k)"
proof -
  obtain x y z w where i: "input = vector_set x y z w" by (rule vector4d_lanes_cases)
  obtain lx ly lz lw where l: "lo_v = vector_set lx ly lz lw" by (rule vector4d_lanes_cases)
  obtain hx hy hz hw where h: "hi_v = vector_set hx hy hz hw" by (rule vector4d_lanes_cases)
  show ?thesis
    by (simp add: vector_clamp_def i l h vector_max_set vector_min_set all_lanes lane_set clamp_lane)
qed

theorem clamp_is_min_of_max_witness:
  "f64_lt (lane (vector_set1 pos_zero) 0) (lane (vector_set1 f64_one) 0)
   \<and> \<not> is_nan (lane (vector_set1 f64_half) 0)
   \<and> lane (vector_clamp (vector_set1 f64_half) (vector_set1 f64_one) (vector_set1 pos_zero)) 0 = pos_zero"
proof -
  have a: "f64_lt pos_zero f64_one" "\<not> is_nan f64_half"
    by (simp_all add: f64_eval)
  note c = clamp_is_min_of_max [of "vector_set1 f64_half" "vector_set1 f64_one" "vector_set1 pos_zero",
      THEN conjunct2, rule_format, of 0]
  have "lane (vector_clamp (vector_set1 f64_half) (vector_set1 f64_one) (vector_set1 pos_zero)) 0
      = lane (vector_set1 pos_zero) 0"
    by (rule c) (simp_all add: lane_set1 a)
  then show ?thesis using a by (simp add: lane_set1)
qed

text \<open>
  A NaN input lane comes through both instructions (each delivers its second operand when
  either is NaN), also where \<open>lo > hi\<close>: here \<open>lo = 1.0\<close>, \<open>hi = 0.0\<close> and the result is not \<open>hi\<close>.
\<close>

theorem clamp_nan_counterexample:
  "f64_lt (lane (vector_set1 pos_zero) 0) (lane (vector_set1 f64_one) 0)
   \<and> lane (vector_clamp (vector_set1 qnan) (vector_set1 f64_one) (vector_set1 pos_zero)) 0
       \<noteq> lane (vector_set1 pos_zero) 0"
  by (simp add: lane_def lanes_def getters qnan_def f64_eval mm_eval vec_eval)

section \<open>Ceiling and floor\<close>

text \<open>
  On the examples of the header, (1.8, 1.0, -1.8, -1.0), the two functions are right:
  the ceiling is (2.0, 1.0, -1.0, -1.0) and the floor is (1.0, 1.0, -2.0, -1.0).
\<close>

lemma ceil_pd_examples:
  "ceil_pd \<lparr>lo = 0x3FFCCCCCCCCCCCCD, hi = 0x3FF0000000000000\<rparr>
     = \<lparr>lo = 0x4000000000000000, hi = 0x3FF0000000000000\<rparr>"
  "ceil_pd \<lparr>lo = 0xBFFCCCCCCCCCCCCD, hi = 0xBFF0000000000000\<rparr>
     = \<lparr>lo = 0xBFF0000000000000, hi = 0xBFF0000000000000\<rparr>"
  by (simp_all add: f64_eval mm_eval vec_eval)

lemma floor_pd_examples:
  "floor_pd \<lparr>lo = 0x3FFCCCCCCCCCCCCD, hi = 0x3FF0000000000000\<rparr>
     = \<lparr>lo = 0x3FF0000000000000, hi = 0x3FF0000000000000\<rparr>"
  "floor_pd \<lparr>lo = 0xBFFCCCCCCCCCCCCD, hi = 0xBFF0000000000000\<rparr>
     = \<lparr>lo = 0xC000000000000000, hi = 0xBFF0000000000000\<rparr>"
  by (simp_all add: f64_eval mm_eval vec_eval)

lemma ceil_floor_examples:
  "vector_ceil (vector_set 0x3FFCCCCCCCCCCCCD 0x3FF0000000000000 0xBFFCCCCCCCCCCCCD 0xBFF0000000000000)
     = vector_set 0x4000000000000000 0x3FF0000000000000 0xBFF0000000000000 0xBFF0000000000000"
  "vector_floor (vector_set 0x3FFCCCCCCCCCCCCD 0x3FF0000000000000 0xBFFCCCCCCCCCCCCD 0xBFF0000000000000)
     = vector_set 0x3FF0000000000000 0x3FF0000000000000 0xC000000000000000 0xBFF0000000000000"
  by (simp_all add: vector_ceil_def vector_floor_def vector_set_def mm_set_pd_def
      ceil_pd_examples floor_pd_examples)

subsection \<open>Beyond the 32-bit range\<close>

lemma ceil_pd_3e9:
  "ceil_pd \<lparr>lo = 0x41E65A0BC0000000, hi = 0x41E65A0BC0000000\<rparr>
     = \<lparr>lo = 0xC1DFFFFFFFC00000, hi = 0xC1DFFFFFFFC00000\<rparr>"
  by (simp add: f64_eval mm_eval vec_eval)

lemma floor_pd_minus_3e9:
  "floor_pd \<lparr>lo = 0xC1E65A0BC0000000, hi = 0xC1E65A0BC0000000\<rparr>
     = \<lparr>lo = 0xC1E0000000200000, hi = 0xC1E0000000200000\<rparr>"
  by (simp add: f64_eval mm_eval vec_eval)

lemma out_of_range_values:
  "f64_valof 0x41E65A0BC0000000 = 3000000000" "f64_valof 0xC1DFFFFFFFC00000 = - 2147483647"
  "f64_valof 0xC1E65A0BC0000000 = - 3000000000" "f64_valof 0xC1E0000000200000 = - 2147483649"
  "is_finite 0x41E65A0BC0000000" "is_finite 0xC1E65A0BC0000000"
  "f64_lt 0xC1DFFFFFFFC00000 0x41E65A0BC0000000" "f64_lt 0xC1E65A0BC0000000 0xC1E0000000200000"
  by (simp_all add: valof_eval f64_eval)

text \<open>
  Claim C2 says that for every finite \<open>x\<close> the lane of \<^verbatim>\<open>vector_floor\<close> is \<open>\<le> x\<close> and the lane of
  \<^verbatim>\<open>vector_ceil\<close> is \<open>\<ge> x\<close>. For \<open>2 ^ 31 \<le> |x| < 2 ^ 52\<close> the conversion to a 32-bit integer
  gives the integer indefinite, \<open>- 2 ^ 31\<close>, and the code returns a value far from the input:
  the lane of \<^verbatim>\<open>vector_ceil\<close> at 3000000000.0 is -2147483647.0, below the input, and the lane
  of \<^verbatim>\<open>vector_floor\<close> at -3000000000.0 is -2147483649.0, above it.
\<close>

theorem ceil_floor_out_of_int32_range:
  "is_finite 0x41E65A0BC0000000 \<and> f64_valof 0x41E65A0BC0000000 = 3000000000 \<and>
   lanes (vector_ceil (vector_set1 0x41E65A0BC0000000))
     = [0xC1DFFFFFFFC00000, 0xC1DFFFFFFFC00000, 0xC1DFFFFFFFC00000, 0xC1DFFFFFFFC00000] \<and>
   f64_valof 0xC1DFFFFFFFC00000 = - 2147483647 \<and>
   f64_lt 0xC1DFFFFFFFC00000 0x41E65A0BC0000000 \<and>
   is_finite 0xC1E65A0BC0000000 \<and> f64_valof 0xC1E65A0BC0000000 = - 3000000000 \<and>
   lanes (vector_floor (vector_set1 0xC1E65A0BC0000000))
     = [0xC1E0000000200000, 0xC1E0000000200000, 0xC1E0000000200000, 0xC1E0000000200000] \<and>
   f64_valof 0xC1E0000000200000 = - 2147483649 \<and>
   f64_lt 0xC1E65A0BC0000000 0xC1E0000000200000"
  using out_of_range_values
  by (simp add: vector_ceil_def vector_floor_def vector_set1_def ceil_pd_3e9 floor_pd_minus_3e9
      lanes_rec mm_set1_pd_def)

section \<open>Lanes that the rounding functions return as they are\<close>

lemma ceil_pd_keeps:
  "unchanged_class (lo r) \<or> is_nan (lo r) \<Longrightarrow> lo (ceil_pd r) = lo r"
  "unchanged_class (hi r) \<or> is_nan (hi r) \<Longrightarrow> hi (ceil_pd r) = hi r"
  unfolding unchanged_class_def
  by (auto simp: ceil_pd_def blend_original_lanes use_original_input_lanes blend_mask keep_large)

lemma floor_pd_keeps:
  "unchanged_class (lo r) \<or> is_nan (lo r) \<Longrightarrow> lo (floor_pd r) = lo r"
  "unchanged_class (hi r) \<or> is_nan (hi r) \<Longrightarrow> hi (floor_pd r) = hi r"
  unfolding unchanged_class_def
  by (auto simp: floor_pd_def blend_original_lanes use_original_input_lanes blend_mask keep_large)

lemma add_sub_offset_nan:
  "is_nan (lo r) \<Longrightarrow> lo (add_sub_offset r off) = quiet (lo r)"
  "is_nan (hi r) \<Longrightarrow> hi (add_sub_offset r off) = quiet (hi r)"
  by (simp_all add: add_sub_offset_def mm_add_pd_def mm_sub_pd_def lanewise_def f64_add_def
      f64_sub_def quiet_nan quiet_quiet)

lemma round_bankers_pd_nan:
  "is_nan (lo r) \<Longrightarrow> lo (round_bankers_pd r) = quiet (lo r)"
  "is_nan (hi r) \<Longrightarrow> hi (round_bankers_pd r) = quiet (hi r)"
  by (simp_all add: round_bankers_pd_def blend_original_lanes is_input_large_lanes blend_mask
      not_large_nan add_sub_offset_nan)

text \<open>
  Claim C1, as amended. A lane that is +Infinity, -Infinity, or finite with \<open>|x| \<ge> 2 ^ 52\<close> is
  returned unchanged by \<^verbatim>\<open>vector_ceil\<close>, \<^verbatim>\<open>vector_floor\<close> and \<^verbatim>\<open>vector_round_bankers\<close>. A NaN lane
  is returned unchanged by \<^verbatim>\<open>vector_ceil\<close> and \<^verbatim>\<open>vector_floor\<close>; \<^verbatim>\<open>vector_round_bankers\<close> returns it
  with the quiet bit set: still a NaN, of the same sign and payload, and the same bits when
  the input was a quiet NaN.
\<close>

theorem rounding_passthrough:
  "\<forall>k<4.
     (is_nan (lane v k) \<or> is_inf (lane v k) \<or> (is_finite (lane v k) \<and> 2 ^ 52 \<le> \<bar>f64_valof (lane v k)\<bar>)
        \<longrightarrow> lane (vector_ceil v) k = lane v k \<and> lane (vector_floor v) k = lane v k) \<and>
     (is_inf (lane v k) \<or> (is_finite (lane v k) \<and> 2 ^ 52 \<le> \<bar>f64_valof (lane v k)\<bar>)
        \<longrightarrow> lane (vector_round_bankers v) k = lane v k) \<and>
     (is_nan (lane v k)
        \<longrightarrow> lane (vector_round_bankers v) k = quiet (lane v k) \<and> is_nan (quiet (lane v k)) \<and>
            (bit (lane v k) 51 \<longrightarrow> lane (vector_round_bankers v) k = lane v k))"
  unfolding all_lanes vector_ceil_def vector_floor_def vector_round_bankers_def lane_rec
  by (auto simp: lane_vec ceil_pd_keeps floor_pd_keeps round_bankers_pd_keeps round_bankers_pd_nan
      quiet_nan quiet_already unchanged_class_def)

theorem rounding_passthrough_witness:
  "is_inf (lane (vector_set pos_inf 0x4330000000000000 qnan neg_inf) 0) \<and>
   lane (vector_ceil (vector_set pos_inf 0x4330000000000000 qnan neg_inf)) 0 = pos_inf \<and>
   lane (vector_floor (vector_set pos_inf 0x4330000000000000 qnan neg_inf)) 0 = pos_inf \<and>
   lane (vector_round_bankers (vector_set pos_inf 0x4330000000000000 qnan neg_inf)) 0 = pos_inf \<and>
   is_finite (lane (vector_set pos_inf 0x4330000000000000 qnan neg_inf) 1) \<and>
   2 ^ 52 \<le> \<bar>f64_valof (lane (vector_set pos_inf 0x4330000000000000 qnan neg_inf) 1)\<bar> \<and>
   lane (vector_ceil (vector_set pos_inf 0x4330000000000000 qnan neg_inf)) 1 = 0x4330000000000000 \<and>
   lane (vector_floor (vector_set pos_inf 0x4330000000000000 qnan neg_inf)) 1 = 0x4330000000000000 \<and>
   lane (vector_round_bankers (vector_set pos_inf 0x4330000000000000 qnan neg_inf)) 1 = 0x4330000000000000 \<and>
   is_nan (lane (vector_set pos_inf 0x4330000000000000 qnan neg_inf) 2) \<and>
   bit (lane (vector_set pos_inf 0x4330000000000000 qnan neg_inf) 2) 51 \<and>
   lane (vector_ceil (vector_set pos_inf 0x4330000000000000 qnan neg_inf)) 2 = qnan \<and>
   lane (vector_floor (vector_set pos_inf 0x4330000000000000 qnan neg_inf)) 2 = qnan \<and>
   lane (vector_round_bankers (vector_set pos_inf 0x4330000000000000 qnan neg_inf)) 2 = qnan"
proof -
  let ?v = "vector_set pos_inf 0x4330000000000000 qnan neg_inf"
  have k0: "is_inf (lane ?v 0)"
    by (simp add: lane_set pos_inf_def is_inf_def f64_expo_def f64_mag_def f64_frac_def)
  have k1: "is_finite (lane ?v 1)" "2 ^ 52 \<le> \<bar>f64_valof (lane ?v 1)\<bar>"
    by (simp_all add: lane_set is_finite_def f64_valof_def f64_sign_def f64_mant_def f64_exp_def
        pow2_def f64_expo_def f64_mag_def f64_frac_def)
  have k2: "is_nan (lane ?v 2)" "bit (lane ?v 2) 51"
    by (simp_all add: lane_set is_nan_qnan) (simp add: qnan_def bit_iff_odd)
  note t = rounding_passthrough [of ?v, rule_format]
  have lt: "(0::nat) < 4" "(1::nat) < 4" "(2::nat) < 4" by simp_all
  have r0: "lane (vector_ceil ?v) 0 = lane ?v 0 \<and> lane (vector_floor ?v) 0 = lane ?v 0
      \<and> lane (vector_round_bankers ?v) 0 = lane ?v 0"
    using t [OF lt(1)] k0 by blast
  have r1: "lane (vector_ceil ?v) 1 = lane ?v 1 \<and> lane (vector_floor ?v) 1 = lane ?v 1
      \<and> lane (vector_round_bankers ?v) 1 = lane ?v 1"
    using t [OF lt(2)] k1 by blast
  have r2: "lane (vector_ceil ?v) 2 = lane ?v 2 \<and> lane (vector_floor ?v) 2 = lane ?v 2
      \<and> lane (vector_round_bankers ?v) 2 = lane ?v 2"
    using t [OF lt(3)] k2 by blast
  have l: "lane ?v 0 = pos_inf" "lane ?v 1 = 0x4330000000000000" "lane ?v 2 = qnan"
    by (simp_all add: lane_set)
  show ?thesis using r0 r1 r2 k0 k1 k2 unfolding l by simp
qed

text \<open>
  A signalling NaN does not come out of \<^verbatim>\<open>vector_round_bankers\<close> unchanged: the addition
  delivers it quiet, and no mask selects the original lane.
\<close>

theorem round_bankers_snan_counterexample:
  "is_nan (lane (vector_set1 snan) 0) \<and>
   lane (vector_round_bankers (vector_set1 snan)) 0 = 0x7FF8000000000001 \<and>
   lane (vector_round_bankers (vector_set1 snan)) 0 \<noteq> lane (vector_set1 snan) 0"
  by (simp add: lane_def lanes_def getters f64_eval mm_eval vec_eval)

section \<open>Interpolation at the two ends\<close>

lemma vector_lerp_set:
  "vector_lerp (vector_set sx sy sz sw) (vector_set ex ey ez ew) alpha =
     vector_set (lerp_lane sx ex alpha) (lerp_lane sy ey alpha)
                (lerp_lane sz ez alpha) (lerp_lane sw ew alpha)"
  by (simp add: vector_lerp_def vector_mul_add_d_def vector_neg_mul_sub_d_def vector_mul_d_def
      vector_add_def vector_sub_def vector_mul_def mm_add_pd_def mm_sub_pd_def mm_mul_pd_def
      lanewise_defs lerp_lane_def)

lemma drop_zero_sign_alt: "drop_zero_sign x = (if is_zero x then pos_zero else x)"
proof (cases "is_zero x")
  case True
  then show ?thesis using zero_cases [of x] by (auto simp: drop_zero_sign_def)
next
  case False
  then have "x \<noteq> neg_zero" by (auto simp: is_zero_def neg_zero_def f64_mag_def)
  with False show ?thesis by (simp add: drop_zero_sign_def)
qed

lemma sub_zero_product:
  assumes fin: "is_finite s"
  shows "f64_sub s (f64_pack (f64_sign s) 0) = drop_zero_sign s"
proof -
  let ?m = "f64_pack (f64_sign s) 0"
  have z: "is_zero (f64_neg ?m)" by (simp add: zero_neg is_zero_pack0)
  have sub: "f64_sub s ?m = f64_add s (f64_neg ?m)"
    using fin by (simp add: f64_sub_def finite_not_nan zero_not_nan is_zero_pack0)
  show ?thesis
  proof (cases "is_zero s")
    case True
    then show ?thesis using z by (simp add: sub add_zeros neg_sign drop_zero_sign_alt)
  next
    case False
    then show ?thesis using fin z by (simp add: sub add_zero_right drop_zero_sign_alt)
  qed
qed

lemma add_zero_drop:
  assumes fin: "is_finite t" and z: "is_zero m" and pos: "is_zero t \<longrightarrow> t = pos_zero"
  shows "f64_add m t = t"
proof (cases "is_zero t")
  case True
  with pos have "t = pos_zero" by simp
  then show ?thesis using z by (simp add: add_zeros is_zero_pos_zero sign_pos_zero)
next
  case False
  then show ?thesis using fin z by (simp add: add_zero_left)
qed

lemma drop_zero_sign_finite: "is_finite x \<Longrightarrow> is_finite (drop_zero_sign x)"
  by (simp add: drop_zero_sign_def zero_finite is_zero_pos_zero)

lemma drop_zero_sign_pos: "is_zero (drop_zero_sign x) \<longrightarrow> drop_zero_sign x = pos_zero"
  by (simp add: drop_zero_sign_alt)

lemma lerp_lane_zero:
  assumes "is_finite s" and "is_finite e"
  shows "lerp_lane s e pos_zero = drop_zero_sign s"
proof -
  have ms: "f64_mul s pos_zero = f64_pack (f64_sign s) 0"
    using assms(1) by (simp add: mul_zero_right is_zero_pos_zero sign_pos_zero)
  have me: "is_zero (f64_mul e pos_zero)"
    using assms(2) by (simp add: mul_zero_right is_zero_pos_zero is_zero_pack0)
  show ?thesis
    unfolding lerp_lane_def ms sub_zero_product [OF assms(1)]
    using me assms(1) by (intro add_zero_drop drop_zero_sign_finite drop_zero_sign_pos)
qed

lemma lerp_lane_one:
  assumes "is_finite s" and "is_finite e"
  shows "lerp_lane s e f64_one = drop_zero_sign e"
proof (cases "is_zero e")
  case True
  then show ?thesis using assms
    by (simp add: lerp_lane_def mul_one_right sub_self add_zeros is_zero_pos_zero sign_pos_zero
        drop_zero_sign_alt)
next
  case False
  then show ?thesis using assms
    by (simp add: lerp_lane_def mul_one_right sub_self add_zero_right is_zero_pos_zero
        drop_zero_sign_alt)
qed

lemma eq_drop_zero_sign: "is_finite x \<Longrightarrow> f64_eq (drop_zero_sign x) x"
proof -
  assume fin: "is_finite x"
  have "f64_key neg_zero = 0" "f64_key pos_zero = 0" "\<not> is_nan pos_zero"
    by (simp_all add: key_of_zero is_zero_pos_zero zero_not_nan)
       (simp add: f64_key_def neg_zero_def f64_sign_def f64_mag_def)
  then show ?thesis using fin by (simp add: drop_zero_sign_def f64_eq_def finite_not_nan)
qed

text \<open>
  Claim C8, as amended. In every lane where \<open>start\<close> and \<open>end\<close> are both finite,
  \<^verbatim>\<open>vector_lerp(start, end, 0.0)\<close> equals \<open>start\<close> and \<^verbatim>\<open>vector_lerp(start, end, 1.0)\<close> equals \<open>end\<close>:
  equal as doubles, and the same bits except that a lane holding \<open>-0.0\<close> comes out as \<open>+0.0\<close>.
\<close>

theorem lerp_boundary:
  "\<forall>k<4. is_finite (lane start k) \<and> is_finite (lane end_v k) \<longrightarrow>
     lane (vector_lerp start end_v pos_zero) k = drop_zero_sign (lane start k) \<and>
     f64_eq (lane (vector_lerp start end_v pos_zero) k) (lane start k) \<and>
     lane (vector_lerp start end_v f64_one) k = drop_zero_sign (lane end_v k) \<and>
     f64_eq (lane (vector_lerp start end_v f64_one) k) (lane end_v k)"
proof -
  obtain sx sy sz sw where s: "start = vector_set sx sy sz sw" by (rule vector4d_lanes_cases)
  obtain ex ey ez ew where e: "end_v = vector_set ex ey ez ew" by (rule vector4d_lanes_cases)
  show ?thesis
    by (simp add: s e all_lanes vector_lerp_set lane_set lerp_lane_zero lerp_lane_one
        eq_drop_zero_sign)
qed

theorem lerp_boundary_witness:
  "is_finite (lane (vector_set1 0x4004000000000000) 0) \<and>
   is_finite (lane (vector_set1 neg_zero) 0) \<and>
   lane (vector_lerp (vector_set1 0x4004000000000000) (vector_set1 neg_zero) pos_zero) 0
     = 0x4004000000000000 \<and>
   lane (vector_lerp (vector_set1 0x4004000000000000) (vector_set1 neg_zero) f64_one) 0 = pos_zero"
proof -
  have f: "is_finite (lane (vector_set1 0x4004000000000000) 0)"
          "is_finite (lane (vector_set1 neg_zero) 0)"
    by (simp_all add: lane_set1 is_finite_def f64_expo_def f64_mag_def neg_zero_def)
  have lt: "(0::nat) < 4" by simp
  note t = lerp_boundary [of "vector_set1 0x4004000000000000" "vector_set1 neg_zero", rule_format, OF lt]
  have "lane (vector_lerp (vector_set1 0x4004000000000000) (vector_set1 neg_zero) pos_zero) 0
          = drop_zero_sign (lane (vector_set1 0x4004000000000000) 0)"
       "lane (vector_lerp (vector_set1 0x4004000000000000) (vector_set1 neg_zero) f64_one) 0
          = drop_zero_sign (lane (vector_set1 neg_zero) 0)"
    using t f by blast+
  then show ?thesis using f by (simp add: lane_set1 drop_zero_sign_def neg_zero_def)
qed

text \<open>
  With an infinite lane in \<open>end\<close> the product \<open>end * 0.0\<close> is NaN, and so is the result at
  \<open>alpha = 0.0\<close>: the claim as stated, for every pair of vectors, fails.
\<close>

theorem lerp_infinite_counterexample:
  "lane (vector_lerp (vector_set1 f64_one) (vector_set1 pos_inf) pos_zero) 0 = default_nan \<and>
   is_nan default_nan \<and>
   lane (vector_set1 f64_one) 0 = f64_one \<and>
   \<not> f64_eq (lane (vector_lerp (vector_set1 f64_one) (vector_set1 pos_inf) pos_zero) 0)
            (lane (vector_set1 f64_one) 0)"
  by (simp add: lane_def lanes_def getters pos_inf_def f64_eval mm_eval vec_eval)

section \<open>Symmetry of the distance\<close>

lemma vector_distance3_set:
  "vector_distance3 (vector_set ax ay az aw) (vector_set bx b_y bz bw)
     = distance3_lanes ax ay az bx b_y bz"
  by (simp add: vector_distance3_def vector_length3_def vector_length_squared3_sd_def
      vector_dot3_sd_def dot3_sum_def scalar_cast_def scalar_sqrt_def vector_sub_def
      mm_sub_pd_def mm_mul_pd_def mm_add_sd_def mm_shuffle_pd_def mm_cvtsd_f64_def lanewise_defs
      distance3_lanes_def square_diff_def)

lemma all_lanes3: "(\<forall>k<3. P k) \<longleftrightarrow> P 0 \<and> P (Suc 0) \<and> P (2::nat)"
proof -
  have "k < 3 \<longleftrightarrow> k = 0 \<or> k = Suc 0 \<or> k = 2" for k :: nat by arith
  then show ?thesis by auto
qed

text \<open>
  Claim C10, as amended. \<^verbatim>\<open>vector_distance3(a, b)\<close> equals \<^verbatim>\<open>vector_distance3(b, a)\<close> bit for bit
  whenever none of the lanes x, y, z holds a NaN in both \<open>a\<close> and \<open>b\<close>. The squared
  differences of the lanes are then the same bits in both directions, and the sum and the
  square root are taken of the same operands in the same order.
\<close>

theorem distance3_symmetric:
  assumes "\<forall>k<3. \<not> (is_nan (lane a k) \<and> is_nan (lane b k))"
  shows "vector_distance3 a b = vector_distance3 b a"
proof -
  obtain ax ay az aw where a: "a = vector_set ax ay az aw" by (rule vector4d_lanes_cases)
  obtain bx b_y bz bw where b: "b = vector_set bx b_y bz bw" by (rule vector4d_lanes_cases)
  have n: "\<not> (is_nan ax \<and> is_nan bx)" "\<not> (is_nan ay \<and> is_nan b_y)" "\<not> (is_nan az \<and> is_nan bz)"
    using assms unfolding all_lanes3 a b lane_set by simp_all
  show ?thesis
    unfolding a b vector_distance3_set distance3_lanes_def square_diff_def
    by (simp only: square_sub_swap [OF n(1)] square_sub_swap [OF n(2)] square_sub_swap [OF n(3)])
qed

theorem distance3_symmetric_witness:
  "\<not> (is_nan (lane (vector_set1 qnan) 0) \<and> is_nan (lane (vector_set1 f64_one) 0)) \<and>
   vector_distance3 (vector_set1 qnan) (vector_set1 f64_one)
     = vector_distance3 (vector_set1 f64_one) (vector_set1 qnan)"
proof -
  have n: "\<not> is_nan f64_one" by (simp add: one_fields)
  then have "\<forall>k<3. \<not> (is_nan (lane (vector_set1 qnan) k) \<and> is_nan (lane (vector_set1 f64_one) k))"
    by (simp add: lane_set1)
  from distance3_symmetric [OF this] n show ?thesis by (simp add: lane_set1)
qed

text \<open>
  Where both vectors hold a NaN in the same lane, the subtraction delivers the NaN of its
  first operand, and the two distances carry different payloads.
\<close>

theorem distance3_nan_payload_counterexample:
  "vector_distance3 (vector_set1 qnan) (vector_set1 qnan1) = qnan \<and>
   vector_distance3 (vector_set1 qnan1) (vector_set1 qnan) = qnan1 \<and>
   vector_distance3 (vector_set1 qnan) (vector_set1 qnan1)
     \<noteq> vector_distance3 (vector_set1 qnan1) (vector_set1 qnan)"
  by (simp add: vector_distance3_def vector_length3_def vector_length_squared3_sd_def
      vector_dot3_sd_def dot3_sum_def scalar_cast_def scalar_sqrt_def f64_sqrt_def qnan1_def
      f64_eval mm_eval vec_eval)

section \<open>Normalization with a fallback\<close>

lemma vector_mul_sd_lanes:
  "k < 4 \<Longrightarrow> lane (vector_mul_sd input s) k = f64_mul (lane input k) (lo (sd_value s))"
proof -
  have "\<forall>k<4. lane (vector_mul_sd input s) k = f64_mul (lane input k) (lo (sd_value s))"
    unfolding all_lanes
    by (simp add: vector_mul_sd_def lane_rec lane_vec mm_mul_pd_def mm_shuffle_pd_def lanewise_def)
  then show "k < 4 \<Longrightarrow> lane (vector_mul_sd input s) k = f64_mul (lane input k) (lo (sd_value s))"
    by simp
qed

lemma sqrt_reciprocal_lo:
  "lo (sd_value (scalar_sqrt_reciprocal s)) = f64_div f64_one (f64_sqrt (scalar_cast s))"
  by (simp add: scalar_sqrt_reciprocal_def scalar_cast_def mm_cvtsd_f64_def)

lemma le_lt_nan_cases: "f64_le b a \<or> f64_lt a b \<or> is_nan a \<or> is_nan b"
  by (auto simp: f64_le_def f64_lt_def)

lemma not_le_if: "f64_lt a b \<or> is_nan a \<or> is_nan b \<Longrightarrow> \<not> f64_le b a"
  by (auto simp: f64_le_def f64_lt_def)

text \<open>
  Claim C6, as amended. With \<open>len_sq\<close> the squared 3-component length of the input, the
  overload of \<^verbatim>\<open>vector_normalize3\<close> with a fallback and a threshold (default 1e-8) returns the
  fallback unchanged whenever \<open>len_sq\<close> is below the threshold, and also whenever \<open>len_sq\<close> or
  the threshold is NaN; in the remaining case, \<open>len_sq \<ge> threshold\<close>, it returns the input
  multiplied lane by lane by the reciprocal square root of \<open>len_sq\<close>.
\<close>

theorem normalize3_fallback:
  "(f64_lt (scalar_cast (vector_length_squared3_sd input)) threshold
      \<or> is_nan (scalar_cast (vector_length_squared3_sd input)) \<or> is_nan threshold
      \<longrightarrow> vector_normalize3 input fallback threshold = fallback) \<and>
   (f64_le threshold (scalar_cast (vector_length_squared3_sd input))
      \<longrightarrow> (\<forall>k<4. lane (vector_normalize3 input fallback threshold) k
              = f64_mul (lane input k)
                  (f64_div f64_one (f64_sqrt (scalar_cast (vector_length_squared3_sd input)))))) \<and>
   (f64_le threshold (scalar_cast (vector_length_squared3_sd input))
      \<or> f64_lt (scalar_cast (vector_length_squared3_sd input)) threshold
      \<or> is_nan (scalar_cast (vector_length_squared3_sd input)) \<or> is_nan threshold)"
  using not_le_if [of "scalar_cast (vector_length_squared3_sd input)" threshold]
    le_lt_nan_cases [of threshold "scalar_cast (vector_length_squared3_sd input)"]
  by (auto simp: vector_normalize3_def normalize3_with_def vector_mul_sd_lanes sqrt_reciprocal_lo)

lemma length_squared3_zero:
  "scalar_cast (vector_length_squared3_sd vector_zero) = pos_zero"
  by (simp add: scalar_cast_def vector_length_squared3_sd_def vector_dot3_sd_def dot3_sum_def
      f64_eval mm_eval vec_eval)

lemma length_squared3_unit:
  "scalar_cast (vector_length_squared3_sd (vector_set f64_one pos_zero pos_zero pos_zero)) = f64_one"
  by (simp add: scalar_cast_def vector_length_squared3_sd_def vector_dot3_sd_def dot3_sum_def
      f64_eval mm_eval vec_eval)

lemma threshold_order: "f64_lt pos_zero default_threshold" "f64_le default_threshold f64_one"
  by (simp_all add: default_threshold_def f64_eval)

lemma reciprocal_root_one: "f64_div f64_one (f64_sqrt f64_one) = f64_one"
  by (simp add: sqrt_div_eval f64_eval)

lemma one_times_one: "f64_mul f64_one f64_one = f64_one"
proof -
  have "is_finite f64_one" by (simp add: is_finite_def f64_one_def f64_expo_def f64_mag_def)
  then show ?thesis by (rule mul_one_right)
qed

theorem normalize3_fallback_witness:
  "f64_lt (scalar_cast (vector_length_squared3_sd vector_zero)) default_threshold \<and>
   vector_normalize3 vector_zero (vector_set f64_one pos_zero pos_zero pos_zero) default_threshold
     = vector_set f64_one pos_zero pos_zero pos_zero \<and>
   f64_le default_threshold
     (scalar_cast (vector_length_squared3_sd (vector_set f64_one pos_zero pos_zero pos_zero))) \<and>
   lane (vector_normalize3 (vector_set f64_one pos_zero pos_zero pos_zero) vector_zero
           default_threshold) 0 = f64_one"
proof -
  let ?u = "vector_set f64_one pos_zero pos_zero pos_zero"
  have a: "vector_normalize3 vector_zero ?u default_threshold = ?u"
    using normalize3_fallback [of vector_zero default_threshold ?u] threshold_order(1)
    by (simp add: length_squared3_zero)
  have lt: "(0::nat) < 4" by simp
  have "lane (vector_normalize3 ?u vector_zero default_threshold) 0
      = f64_mul (lane ?u 0) (f64_div f64_one (f64_sqrt (scalar_cast (vector_length_squared3_sd ?u))))"
    using normalize3_fallback [of ?u default_threshold vector_zero, THEN conjunct2, THEN conjunct1]
      threshold_order(2) lt
    by (simp only: length_squared3_unit)
  then have b: "lane (vector_normalize3 ?u vector_zero default_threshold) 0 = f64_one"
    by (simp add: length_squared3_unit lane_set reciprocal_root_one one_times_one)
  show ?thesis using a b threshold_order by (simp add: length_squared3_zero length_squared3_unit)
qed

text \<open>
  A squared length that is NaN is not below the threshold, and yet the fallback is
  returned, not the (all NaN) product of the input with the reciprocal square root.
\<close>

theorem normalize3_nan_counterexample:
  "\<not> f64_lt (scalar_cast (vector_length_squared3_sd (vector_set1 qnan))) default_threshold \<and>
   vector_normalize3 (vector_set1 qnan) (vector_set1 f64_one) default_threshold = vector_set1 f64_one \<and>
   vector_mul_sd (vector_set1 qnan) (scalar_sqrt_reciprocal (vector_length_squared3_sd (vector_set1 qnan)))
     = vector_set1 qnan \<and>
   vector_normalize3 (vector_set1 qnan) (vector_set1 f64_one) default_threshold
     \<noteq> vector_mul_sd (vector_set1 qnan)
         (scalar_sqrt_reciprocal (vector_length_squared3_sd (vector_set1 qnan)))"
  by (simp add: vector_normalize3_def normalize3_with_def scalar_cast_def
      vector_length_squared3_sd_def vector_dot3_sd_def dot3_sum_def scalar_sqrt_reciprocal_def
      f64_sqrt_def f64_div_def default_threshold_def f64_eval mm_eval vec_eval)

end
